theory Spec2Isabelle
  imports Complex_Main "HOL-Library.Word"
begin

unbundle bit_operations_syntax

section \<open>Numbers and angles\<close>

text \<open>
  The Python floats of \<^verbatim>\<open>haimer_camera.py\<close> are modelled as real numbers, and
  \<open>sin\<close>, \<open>cos\<close> and \<open>atan2\<close> are the mathematical functions, so that a value computed
  here is the value of the program up to rounding. Three things are written out where the
  float arithmetic decides more than the last digit:
  \<^item> \<^verbatim>\<open>math.pi\<close> is the double nearest to \<open>pi\<close>, the rational \<open>math_pi\<close>; the bounds of the
    clamp in \<open>calc_mm\<close> are made of it;
  \<^item> the float sum \<^verbatim>\<open>theta += math.pi * 2\<close> of \<open>calc_mm\<close> is rounded to the nearest
    double, since its rounding decides whether the upper bound of the clamp is reached;
  \<^item> a division by \<open>0.0\<close> and the mean of an empty array give NaN or an infinity under
    NumPy instead of raising; they are extra values of the result type.
\<close>

text \<open>\<^verbatim>\<open>math.pi\<close>, the double \<open>0x400921FB54442D18\<close>.\<close>

definition math_pi :: real where
  "math_pi = 884279719003555 / 281474976710656"

text \<open>
  Rounding of a real number to the nearest double (53 significant bits, ties to the even
  significand). Overflow and subnormal numbers do not occur for the sums of angles below and
  are not modelled.
\<close>

definition round_ties_even :: "real \<Rightarrow> int" where
  "round_ties_even x =
     (let f = \<lfloor>x\<rfloor>; d = x - of_int f
      in if d < 1 / 2 then f else if 1 / 2 < d then f + 1 else if even f then f else f + 1)"

definition float_round :: "real \<Rightarrow> real" where
  "float_round x =
     (if x = 0 then 0
      else (let e = \<lfloor>log 2 \<bar>x\<bar>\<rfloor>;
                u = 2 powr (of_int e - 52)
            in of_int (round_ties_even (x / u)) * u))"

text \<open>
  \<^verbatim>\<open>math.atan2(y, x)\<close>: the angle of the point \<open>(x, y)\<close>, in \<open>(-pi, pi]\<close> on the
  reals, and \<open>0\<close> at the origin.
\<close>

definition atan2 :: "real \<Rightarrow> real \<Rightarrow> real" where
  "atan2 y x =
     (if 0 < x then arctan (y / x)
      else if x < 0 then (if 0 \<le> y then arctan (y / x) + pi else arctan (y / x) - pi)
      else if 0 < y then pi / 2
      else if y < 0 then - (pi / 2)
      else 0)"

text \<open>
  \<^verbatim>\<open>np.mean\<close> of a list of floats. On the empty list NumPy warns and returns NaN, which
  is \<open>None\<close> here.
\<close>

definition np_mean :: "real list \<Rightarrow> real option" where
  "np_mean xs = (if xs = [] then None else Some (sum_list xs / real (length xs)))"

text \<open>
  \<^verbatim>\<open>
  def mean_angles(lst):
      return math.atan2(np.mean(np.sin(lst)), np.mean(np.cos(lst)))
  \<close>
  The result is \<open>None\<close> exactly where the source returns NaN (the empty list).
\<close>

definition mean_angles :: "real list \<Rightarrow> real option" where
  "mean_angles lst =
     (case (np_mean (map sin lst), np_mean (map cos lst)) of
        (Some s, Some c) \<Rightarrow> Some (atan2 s c)
      | _ \<Rightarrow> None)"

text \<open>
  \<^verbatim>\<open>
  def difference_of_angles(theta1, theta2):
      dt = theta1 - theta2
      return math.atan2(math.sin(dt), math.cos(dt))
  \<close>
\<close>

definition difference_of_angles :: "real \<Rightarrow> real \<Rightarrow> real" where
  "difference_of_angles theta1 theta2 =
     (let dt = theta1 - theta2 in atan2 (sin dt) (cos dt))"

text \<open>
  \<^verbatim>\<open>
  def line_angle(pt1, pt2):
      delta_x = pt2[0] - pt1[0]
      delta_y = pt2[1] - pt1[1]
      return math.atan2(delta_y, delta_x) + math.pi / 2.
  \<close>
  Points are pairs of integer pixel coordinates.
\<close>

type_synonym point = "int \<times> int"

definition line_angle :: "point \<Rightarrow> point \<Rightarrow> real" where
  "line_angle pt1 pt2 =
     (let delta_x = fst pt2 - fst pt1;
          delta_y = snd pt2 - snd pt1
      in atan2 (real_of_int delta_y) (real_of_int delta_x) + math_pi / 2)"

section \<open>Calibration: \<open>calc_mm\<close>\<close>

text \<open>
  \<^verbatim>\<open>
  c_haimer_ball_diam = 4.  # millimeters
  c_red_angle_start = 1.9170124625343092
  c_red_angle_end = c_red_angle_start + 2.5120631002707458
  \<close>
\<close>

definition c_haimer_ball_diam :: real where
  "c_haimer_ball_diam = 4"

definition c_red_angle_start :: real where
  "c_red_angle_start = 19170124625343092 / 10000000000000000"

definition c_red_angle_end :: real where
  "c_red_angle_end = c_red_angle_start + 25120631002707458 / 10000000000000000"

text \<open>
  Modelled from the spec: \<^verbatim>\<open>common.append_v(lst, v, n)\<close>, whose module is not among the
  sources. The spec describes a bounded first-in-first-out history of capacity \<open>K\<close> (e.g.
  200): a cycle without a sample (\<open>None\<close>) leaves the history unchanged, a sample is pushed
  at the end, and the oldest entries are evicted beyond the capacity.
\<close>

definition append_v :: "'a list \<Rightarrow> 'a option \<Rightarrow> nat \<Rightarrow> 'a list" where
  "append_v lst v n =
     (case v of
        None \<Rightarrow> lst
      | Some x \<Rightarrow> (let l = lst @ [x] in drop (length l - n) l))"

text \<open>
  Modelled from the spec: the default capacity of \<^verbatim>\<open>common.append_v\<close>, used where the
  source passes none.
\<close>

definition c_history_capacity :: nat where
  "c_history_capacity = 200"

text \<open>
  \<^verbatim>\<open>math.modf(x)[0]\<close>: the fractional part of \<open>x\<close> with the sign of \<open>x\<close>, that is \<open>x\<close>
  minus \<open>x\<close> truncated towards zero.
\<close>

definition modf_frac :: "real \<Rightarrow> real" where
  "modf_frac x = x - of_int (if 0 \<le> x then \<lfloor>x\<rfloor> else \<lceil>x\<rceil>)"

text \<open>
  The function attributes \<^verbatim>\<open>calc_mm.tare_lst\<close> and \<^verbatim>\<open>calc_mm.tare_on\<close> (set up by
  \<^verbatim>\<open>@common.static_vars(tare_lst=[], tare_on=False)\<close>) are the state of the calibrator.
\<close>

record tare_state =
  tare_on :: bool
  tare_lst :: "(real \<times> real) list"

definition tare_init :: tare_state where
  "tare_init = \<lparr>tare_on = False, tare_lst = []\<rparr>"

text \<open>What the \<^verbatim>\<open>print('Tare', ...)\<close> of a tare cycle shows: the length of the accumulator
  and the circular means of its two components.\<close>

type_synonym tare_line = "nat \<times> real option \<times> real option"

text \<open>
  \<^verbatim>\<open>
  def calc_mm(theta_b, theta_r):
      if calc_mm.tare_on:
          common.append_v(calc_mm.tare_lst, (theta_b, theta_r), 200)
          print('Tare', len(calc_mm.tare_lst), mean_angles([x[0] for x in calc_mm.tare_lst]),
                mean_angles([x[1] for x in calc_mm.tare_lst]))
      if theta_b < 0.:
          theta_b += math.pi * 2
      if theta_r < 0.:
          theta_r += math.pi * 2
      theta_b = max(0., min(math.pi * 2, theta_b))
      theta_r = max(0., min(math.pi * 2, theta_r))
      mm_b = theta_b / (math.pi * 2) * 1.
      mm_r = (theta_r - c_red_angle_start) / (c_red_angle_end - c_red_angle_start) * c_haimer_ball_diam
      mm_r_d = math.modf(mm_r)[0]
      theta_d = difference_of_angles(theta_b, mm_r_d * math.pi * 2)
      mm_offset = theta_d / (2 * math.pi)
      mm_blended = mm_r + mm_offset
      mm_final = mm_blended - c_haimer_ball_diam / 2.
      return mm_final, mm_b, mm_r
  \<close>
  The model returns the triple, the state of the tare accumulator after the call, and the
  line printed (if any).
\<close>

definition calc_mm ::
  "tare_state \<Rightarrow> real \<Rightarrow> real \<Rightarrow> (real \<times> real \<times> real) \<times> tare_state \<times> tare_line option" where
  "calc_mm st theta_b theta_r =
     (let (st1, out) =
            (if tare_on st
             then (let l = append_v (tare_lst st) (Some (theta_b, theta_r)) 200
                   in (st\<lparr>tare_lst := l\<rparr>,
                       Some (length l, mean_angles (map fst l), mean_angles (map snd l))))
             else (st, None));
          theta_b1 = (if theta_b < 0 then float_round (theta_b + math_pi * 2) else theta_b);
          theta_r1 = (if theta_r < 0 then float_round (theta_r + math_pi * 2) else theta_r);
          theta_b2 = max 0 (min (math_pi * 2) theta_b1);
          theta_r2 = max 0 (min (math_pi * 2) theta_r1);
          mm_b = theta_b2 / (math_pi * 2) * 1;
          mm_r = (theta_r2 - c_red_angle_start) / (c_red_angle_end - c_red_angle_start)
                   * c_haimer_ball_diam;
          mm_r_d = modf_frac mm_r;
          theta_d = difference_of_angles theta_b2 (mm_r_d * math_pi * 2);
          mm_offset = theta_d / (2 * math_pi);
          mm_blended = mm_r + mm_offset;
          mm_final = mm_blended - c_haimer_ball_diam / 2
      in ((mm_final, mm_b, mm_r), st1, out))"

text \<open>
  The normalisation step of \<open>calc_mm\<close>, written out on its own: a negative angle has
  \<^verbatim>\<open>math.pi * 2\<close> added in float arithmetic, and the result is clamped between \<open>0\<close> and
  \<^verbatim>\<open>math.pi * 2\<close>.
\<close>

definition normalized :: "real \<Rightarrow> real" where
  "normalized theta =
     max 0 (min (math_pi * 2) (if theta < 0 then float_round (theta + math_pi * 2) else theta))"

section \<open>Line filtering: \<open>filter_lines\<close> and \<open>summarize_lines\<close>\<close>

text \<open>
  A candidate segment is one row \<^verbatim>\<open>[[x1, y1, x2, y2]]\<close> of the array that
  \<^verbatim>\<open>cv2.HoughLinesP\<close> returns: four integer pixel coordinates. Pixel coordinates are bounded
  by the frame, so the integer arithmetic on them is exact and is modelled on \<open>int\<close>.
\<close>

type_synonym seg = "int \<times> int \<times> int \<times> int"

text \<open>
  The quotient \<^verbatim>\<open>abs(...) / math.sqrt(...)\<close> of \<open>filter_lines\<close> divides a NumPy integer by a
  Python float, which is NumPy's float division: a zero divisor raises nothing (NumPy warns)
  and gives NaN for \<open>0 / 0.0\<close> and an infinity otherwise. A comparison with NaN is false.
\<close>

datatype npfloat = Finite real | PosInf | NegInf | NaN

definition np_true_divide :: "int \<Rightarrow> real \<Rightarrow> npfloat" where
  "np_true_divide a b =
     (if b = 0 then (if a = 0 then NaN else if 0 < a then PosInf else NegInf)
      else Finite (real_of_int a / b))"

fun np_less :: "npfloat \<Rightarrow> real \<Rightarrow> bool" where
  "np_less (Finite d) c = (d < c)"
| "np_less PosInf c = False"
| "np_less NegInf c = True"
| "np_less NaN c = False"

text \<open>
  The divisor \<^verbatim>\<open>math.sqrt((y2 - y1) ** 2 + (x2 - x1) ** 2)\<close> and the distance
  \<^verbatim>\<open>
  d = abs((y2 - y1) * x0 - (x2 - x1) * y0 + x2 * y1 - y2 * x1) / math.sqrt((y2 - y1) ** 2 + (x2 - x1) ** 2)
  \<close>
  of the first loop of \<open>filter_lines\<close>.
\<close>

fun distance_divisor :: "seg \<Rightarrow> real" where
  "distance_divisor (x1, y1, x2, y2) = sqrt (real_of_int ((y2 - y1) ^ 2 + (x2 - x1) ^ 2))"

fun pivot_distance :: "seg \<Rightarrow> point \<Rightarrow> npfloat" where
  "pivot_distance (x1, y1, x2, y2) (x0, y0) =
     np_true_divide (abs ((y2 - y1) * x0 - (x2 - x1) * y0 + x2 * y1 - y2 * x1))
       (distance_divisor (x1, y1, x2, y2))"

text \<open>The flag \<^verbatim>\<open>d < cutoff\<close> of the first loop: the segment is near the pivot.\<close>

definition near_pivot :: "point \<Rightarrow> real \<Rightarrow> seg \<Rightarrow> bool" where
  "near_pivot image_center cutoff lst = np_less (pivot_distance lst image_center) cutoff"

text \<open>
  The length \<^verbatim>\<open>math.sqrt(delta_x ** 2 + delta_y ** 2)\<close> and the orientation
  \<^verbatim>\<open>line_angle((x1, y1), (x2, y2))\<close> of a segment, as the second stage computes them.
\<close>

fun seg_length :: "seg \<Rightarrow> real" where
  "seg_length (x1, y1, x2, y2) = sqrt (real_of_int ((x1 - x2) ^ 2 + (y1 - y2) ^ 2))"

fun seg_angle :: "seg \<Rightarrow> real" where
  "seg_angle (x1, y1, x2, y2) = line_angle (x1, y1) (x2, y2)"

text \<open>
  \<^verbatim>\<open>
  md = None
  m_lst = None
  for lst in lines2:
      inc, (x1, y1, x2, y2) = lst[0], lst[1][0]
      if inc:
          d = math.sqrt(delta_x ** 2 + delta_y ** 2)
          if md is None or md < d:
              md = d
              m_lst = lst
  \<close>
  The accumulator is the pair \<open>(md, m_lst)\<close>, \<open>None\<close> while both are \<open>None\<close>.
\<close>

fun find_longest ::
  "(real \<times> bool \<times> seg) option \<Rightarrow> (bool \<times> seg) list \<Rightarrow> (real \<times> bool \<times> seg) option" where
  "find_longest acc [] = acc"
| "find_longest acc ((inc, lst) # rest) =
     (if inc
      then (let d = seg_length lst
            in (case acc of
                  None \<Rightarrow> find_longest (Some (d, inc, lst)) rest
                | Some (md, m_lst) \<Rightarrow>
                    if md < d then find_longest (Some (d, inc, lst)) rest
                    else find_longest acc rest))
      else find_longest acc rest)"

text \<open>
  \<^verbatim>\<open>
  def filter_lines(lines, image_center, cutoff=5):
      lines2 = []
      for lst in lines:
          ...
          lines2 += [[d < cutoff, lst]]
      if True:
          lines3 = []
          ... (find md, m_lst)
          if md is not None:
              _, (x1, y1, x2, y2) = m_lst[0], m_lst[1][0]
              a0 = line_angle((x1, y1), (x2, y2))
              for lst in lines2:
                  inc, (x1, y1, x2, y2) = lst[0], lst[1][0]
                  if inc:
                      a1 = line_angle((x1, y1), (x2, y2))
                      mt = difference_of_angles(a0, a1)
                      inc = inc and abs(mt) < math.pi / 8.
                      lines3 += [[inc, lst[1]]]
              lines2 = lines3
      return lines2
  \<close>
\<close>

definition flag_near :: "seg list \<Rightarrow> point \<Rightarrow> real \<Rightarrow> (bool \<times> seg) list" where
  "flag_near lines image_center cutoff =
     map (\<lambda>lst. (near_pivot image_center cutoff lst, lst)) lines"

definition angle_filter :: "real \<Rightarrow> (bool \<times> seg) list \<Rightarrow> (bool \<times> seg) list" where
  "angle_filter a0 lines2 =
     concat (map (\<lambda>(inc, lst).
                    if inc
                    then (let a1 = seg_angle lst;
                              mt = difference_of_angles a0 a1
                          in [(inc \<and> abs mt < math_pi / 8, lst)])
                    else [])
                 lines2)"

definition filter_lines :: "seg list \<Rightarrow> point \<Rightarrow> real \<Rightarrow> (bool \<times> seg) list" where
  "filter_lines lines image_center cutoff =
     (let lines2 = flag_near lines image_center cutoff
      in (case find_longest None lines2 of
            None \<Rightarrow> lines2
          | Some (md, m_lst) \<Rightarrow> angle_filter (seg_angle (snd m_lst)) lines2))"

text \<open>
  \<^verbatim>\<open>
  def summarize_lines(lines, image_center):
      aa = []
      for lst in lines:
          inc, (x1, y1, x2, y2) = lst[0], lst[1][0]
          if inc:
              aa += [line_angle(pt0, pt1), line_angle(pt0, pt2)]
      theta = None
      if aa:
          theta = mean_angles(aa)
      return theta
  \<close>
  The result \<open>None\<close> is Python's \<open>None\<close>; under the guard \<open>aa\<close> is not empty, so that
  \<open>mean_angles\<close> is a number there.
\<close>

fun endpoint_angles :: "point \<Rightarrow> bool \<times> seg \<Rightarrow> real list" where
  "endpoint_angles pt0 (inc, (x1, y1, x2, y2)) =
     (if inc then [line_angle pt0 (x1, y1), line_angle pt0 (x2, y2)] else [])"

definition summarize_lines :: "(bool \<times> seg) list \<Rightarrow> point \<Rightarrow> real option" where
  "summarize_lines lines image_center =
     (let aa = concat (map (endpoint_angles image_center) lines)
      in if aa \<noteq> [] then mean_angles aa else None)"

section \<open>The measurement cycle: \<open>get_measurement\<close>\<close>

text \<open>
  \<^verbatim>\<open>c_inner_mask_r = 20\<close>; \<open>arrow_common\<close> calls \<open>filter_lines\<close> with the cutoff
  \<^verbatim>\<open>c_inner_mask_r // 4\<close>.
\<close>

definition c_inner_mask_r :: int where
  "c_inner_mask_r = 20"

text \<open>
  The part of \<open>arrow_common\<close> after line detection. Segmentation, skeletonisation and
  \<^verbatim>\<open>cv2.HoughLinesP\<close> are OpenCV's work on the frame; their outcome, the array of candidate
  segments or \<open>None\<close> when no line is found, is the input here.
  \<^verbatim>\<open>
  theta = None
  if lines is not None:
      lines = filter_lines(lines, image_center, c_inner_mask_r // 4)
      theta = summarize_lines(lines, image_center)
  \<close>
\<close>

definition arrow_common :: "seg list option \<Rightarrow> point \<Rightarrow> real option" where
  "arrow_common lines image_center =
     (case lines of
        None \<Rightarrow> None
      | Some ls \<Rightarrow>
          summarize_lines (filter_lines ls image_center (real_of_int (c_inner_mask_r div 4)))
            image_center)"

text \<open>
  The function attributes \<^verbatim>\<open>get_measurement.theta_b_l\<close> and
  \<^verbatim>\<open>get_measurement.theta_r_l\<close>, together with the state of \<open>calc_mm\<close>.
\<close>

record measurement_state =
  theta_b_l :: "real list"
  theta_r_l :: "real list"
  tare :: tare_state

text \<open>
  The measuring part of \<open>get_measurement\<close>; drawing, recording and the composition of the
  displayed image do not touch \<open>mm_final\<close> and are left out.
  \<^verbatim>\<open>
  mm_final, mm_b, mm_r = None, None, None
  ...
  theta_b, image_b, seg_b, skel_b = black_arrow(image1, image_center)
  theta_r, image_r, seg_r, skel_r = red_arrow(image1, image_center)
  common.append_v(get_measurement.theta_b_l, theta_b)
  common.append_v(get_measurement.theta_r_l, theta_r)
  if get_measurement.theta_b_l and get_measurement.theta_r_l:
      theta_b = mean_angles(get_measurement.theta_b_l)
      theta_r = mean_angles(get_measurement.theta_r_l)
      mm_final, mm_b, mm_r = calc_mm(theta_b, theta_r)
  ...
  return mm_final, final_img
  \<close>
  The first component of the result is \<open>mm_final\<close> (\<open>None\<close> is Python's \<open>None\<close>), the second
  the state after the cycle. \<open>mean_angles\<close> is NaN only on an empty list, which the guard
  excludes; the model gives \<open>None\<close> on that branch.
\<close>

definition get_measurement ::
  "measurement_state \<Rightarrow> seg list option \<Rightarrow> seg list option \<Rightarrow> point
     \<Rightarrow> real option \<times> measurement_state" where
  "get_measurement s lines_b lines_r image_center =
     (let theta_b = arrow_common lines_b image_center;
          theta_r = arrow_common lines_r image_center;
          s1 = s\<lparr>theta_b_l := append_v (theta_b_l s) theta_b c_history_capacity,
                 theta_r_l := append_v (theta_r_l s) theta_r c_history_capacity\<rparr>
      in if theta_b_l s1 \<noteq> [] \<and> theta_r_l s1 \<noteq> []
         then (case (mean_angles (theta_b_l s1), mean_angles (theta_r_l s1)) of
                 (Some tb, Some tr) \<Rightarrow>
                   (let ((mm_final, mm_b, mm_r), t1, out) = calc_mm (tare s1) tb tr
                    in (Some mm_final, s1\<lparr>tare := t1\<rparr>))
               | _ \<Rightarrow> (None, s1))
         else (None, s1))"

section \<open>Skeletonisation: \<open>find_skeleton\<close>\<close>

text \<open>
  An image is a two-dimensional array of unsigned bytes (one channel): a list of rows of
  equal, positive length. \<open>img_h\<close> and \<open>img_w\<close> are \<^verbatim>\<open>img.shape\<close>.
\<close>

type_synonym image = "8 word list list"

definition img_h :: "image \<Rightarrow> nat" where
  "img_h img = length img"

definition img_w :: "image \<Rightarrow> nat" where
  "img_w img = (case img of [] \<Rightarrow> 0 | r # _ \<Rightarrow> length r)"

definition pixel :: "image \<Rightarrow> nat \<Rightarrow> nat \<Rightarrow> 8 word" where
  "pixel img y x = img ! y ! x"

definition rectangular :: "image \<Rightarrow> bool" where
  "rectangular img = (img \<noteq> [] \<and> 0 < img_w img \<and> list_all (\<lambda>r. length r = img_w img) img)"

definition build_image :: "nat \<Rightarrow> nat \<Rightarrow> (nat \<Rightarrow> nat \<Rightarrow> 8 word) \<Rightarrow> image" where
  "build_image h w f = map (\<lambda>y. map (\<lambda>x. f y x) [0..<w]) [0..<h]"

text \<open>\<^verbatim>\<open>np.zeros(img.shape, np.uint8)\<close>.\<close>

definition zeros :: "nat \<Rightarrow> nat \<Rightarrow> image" where
  "zeros h w = build_image h w (\<lambda>y x. 0)"

text \<open>
  \<^verbatim>\<open>cv2.threshold(img, 127, 255, 0)\<close>: type \<open>0\<close> is the binary threshold, a pixel above
  \<open>127\<close> becomes \<open>255\<close> and every other pixel \<open>0\<close>.
\<close>

definition threshold :: "image \<Rightarrow> image" where
  "threshold img = map (map (\<lambda>v. if 127 < v then 255 else 0)) img"

text \<open>
  The structuring element \<^verbatim>\<open>cv2.getStructuringElement(cv2.MORPH_CROSS, (3, 3))\<close>: a pixel
  and its four direct neighbours. \<^verbatim>\<open>cv2.erode\<close> takes the minimum and \<^verbatim>\<open>cv2.dilate\<close> the
  maximum over the neighbourhood. With the default border of OpenCV a position outside the
  image never lowers an erosion (it counts as the largest value) and never raises a
  dilation (it counts as the smallest), so only the neighbours inside the image take part.
\<close>

definition cross_neighbourhood :: "nat \<Rightarrow> nat \<Rightarrow> nat \<Rightarrow> nat \<Rightarrow> (nat \<times> nat) list" where
  "cross_neighbourhood h w y x =
     (y, x) # (if 0 < y then [(y - 1, x)] else []) @ (if y + 1 < h then [(y + 1, x)] else [])
       @ (if 0 < x then [(y, x - 1)] else []) @ (if x + 1 < w then [(y, x + 1)] else [])"

definition erode :: "image \<Rightarrow> image" where
  "erode img =
     (let h = img_h img; w = img_w img
      in build_image h w
           (\<lambda>y x. foldr min (map (\<lambda>(j, i). pixel img j i) (cross_neighbourhood h w y x)) 255))"

definition dilate :: "image \<Rightarrow> image" where
  "dilate img =
     (let h = img_h img; w = img_w img
      in build_image h w
           (\<lambda>y x. foldr max (map (\<lambda>(j, i). pixel img j i) (cross_neighbourhood h w y x)) 0))"

text \<open>\<^verbatim>\<open>cv2.subtract\<close> saturates at \<open>0\<close>; \<^verbatim>\<open>cv2.bitwise_or\<close> and \<^verbatim>\<open>cv2.countNonZero\<close>.\<close>

definition subtract :: "image \<Rightarrow> image \<Rightarrow> image" where
  "subtract a b = map2 (map2 (\<lambda>u v. if v \<le> u then u - v else 0)) a b"

definition bitwise_or :: "image \<Rightarrow> image \<Rightarrow> image" where
  "bitwise_or a b = map2 (map2 (\<lambda>u v. u OR v)) a b"

definition countNonZero :: "image \<Rightarrow> nat" where
  "countNonZero img = length (filter (\<lambda>v. v \<noteq> 0) (concat img))"

text \<open>
  \<^verbatim>\<open>
  iters = 0
  while True:
      cv2.erode(thresh, kernel, eroded)
      cv2.dilate(eroded, kernel, temp)
      cv2.subtract(thresh, temp, temp)
      cv2.bitwise_or(skeleton, temp, skeleton)
      thresh, eroded = eroded, thresh  # Swap instead of copy
      iters += 1
      if cv2.countNonZero(thresh) == 0:
          return skeleton, iters
  \<close>
  The loop has no bound, so it is a partial function: \<open>None\<close> means that it never returns.
  The three buffers are distinct arrays, so that each call reads its source unchanged.
\<close>

partial_function (option) skeleton_loop :: "image \<Rightarrow> image \<Rightarrow> nat \<Rightarrow> (image \<times> nat) option" where
  "skeleton_loop thresh skeleton iters =
     (let eroded = erode thresh;
          temp = dilate eroded;
          temp1 = subtract thresh temp;
          skeleton1 = bitwise_or skeleton temp1;
          iters1 = iters + 1
      in if countNonZero eroded = 0 then Some (skeleton1, iters1)
         else skeleton_loop eroded skeleton1 iters1)"

declare skeleton_loop.simps [code]

text \<open>
  \<^verbatim>\<open>
  def find_skeleton(img):
      skeleton = np.zeros(img.shape, np.uint8)
      ...
      _, thresh = cv2.threshold(img, 127, 255, 0)
      kernel = cv2.getStructuringElement(cv2.MORPH_CROSS, (3, 3))
      iters = 0
      while True: ...
  \<close>
\<close>

definition find_skeleton :: "image \<Rightarrow> (image \<times> nat) option" where
  "find_skeleton img =
     (let skeleton = zeros (img_h img) (img_w img);
          thresh = threshold img
      in skeleton_loop thresh skeleton 0)"

text \<open>
  For the statements about the loop: the skeleton accumulated by \<open>n\<close> iterations, the set of
  foreground positions of an image, and the existence of a background pixel.
\<close>

fun skeleton_after :: "nat \<Rightarrow> image \<Rightarrow> image \<Rightarrow> image" where
  "skeleton_after 0 thresh skeleton = skeleton"
| "skeleton_after (Suc n) thresh skeleton =
     skeleton_after n (erode thresh)
       (bitwise_or skeleton (subtract thresh (dilate (erode thresh))))"

definition foreground :: "image \<Rightarrow> (nat \<times> nat) set" where
  "foreground img = {(y, x). y < img_h img \<and> x < img_w img \<and> pixel img y x \<noteq> 0}"

definition has_background :: "image \<Rightarrow> bool" where
  "has_background img = (\<exists>y<img_h img. \<exists>x<img_w img. pixel img y x = 0)"

section \<open>Facts about the two-argument arctangent\<close>

lemma atan2_bounds: "- pi < atan2 y x \<and> atan2 y x \<le> pi"
proof -
  have b: "- (pi / 2) < arctan (y / x)" "arctan (y / x) < pi / 2"
    by (rule arctan_lbound, rule arctan_ubound)
  have pos: "0 < pi" by simp
  show ?thesis
  proof (cases "0 < x")
    case True
    then have "atan2 y x = arctan (y / x)" by (simp add: atan2_def)
    with b pos show ?thesis by linarith
  next
    case False
    note nx = this
    show ?thesis
    proof (cases "x < 0")
      case True
      note xneg = this
      show ?thesis
      proof (cases "0 \<le> y")
        case True
        then have "y / x \<le> 0" using xneg by (simp add: divide_nonneg_neg)
        then have "arctan (y / x) \<le> 0" by (simp add: arctan_le_zero_iff)
        moreover have "atan2 y x = arctan (y / x) + pi"
          using nx xneg True by (simp add: atan2_def)
        ultimately show ?thesis using b pos by linarith
      next
        case False
        then have "0 < y / x" using xneg by (simp add: divide_neg_neg)
        then have "0 < arctan (y / x)" by (simp add: zero_less_arctan_iff)
        moreover have "atan2 y x = arctan (y / x) - pi"
          using nx xneg False by (simp add: atan2_def)
        ultimately show ?thesis using b pos by linarith
      qed
    next
      case False
      with nx have "atan2 y x = pi / 2 \<or> atan2 y x = - (pi / 2) \<or> atan2 y x = 0"
        by (simp add: atan2_def)
      with pos show ?thesis by linarith
    qed
  qed
qed

lemma atan2_sin_cos:
  assumes "- pi < t" "t \<le> pi"
  shows "atan2 (sin t) (cos t) = t"
proof -
  consider (mid) "- (pi / 2) < t" "t < pi / 2"
    | (hi) "pi / 2 < t"
    | (lo) "t < - (pi / 2)"
    | (top) "t = pi / 2"
    | (bot) "t = - (pi / 2)"
    by linarith
  then show ?thesis
  proof cases
    case mid
    have "0 < cos t" by (rule cos_gt_zero_pi [OF mid])
    moreover have "arctan (sin t / cos t) = t"
      using arctan_tan [OF mid] by (simp add: tan_def)
    ultimately show ?thesis by (simp add: atan2_def)
  next
    case hi
    have r: "- (pi / 2) < t - pi" "t - pi < pi / 2" using hi assms by linarith+
    have c: "cos t = - cos (t - pi)" and s: "sin t = - sin (t - pi)"
      by (simp_all add: cos_diff sin_diff)
    have cp: "0 < cos (t - pi)" by (rule cos_gt_zero_pi [OF r])
    have "0 \<le> sin (pi - t)" using hi assms by (intro sin_ge_zero) linarith+
    then have sp: "0 \<le> sin t" by (simp add: sin_diff)
    have "sin t / cos t = tan (t - pi)" unfolding tan_def c s by simp
    then have a: "arctan (sin t / cos t) = t - pi" using arctan_tan [OF r] by simp
    have "cos t < 0" using cp c by linarith
    then have "atan2 (sin t) (cos t) = arctan (sin t / cos t) + pi"
      using sp by (simp add: atan2_def)
    with a show ?thesis by simp
  next
    case lo
    have r: "- (pi / 2) < t + pi" "t + pi < pi / 2" using lo assms by linarith+
    have c: "cos t = - cos (t + pi)" and s: "sin t = - sin (t + pi)"
      by (simp_all add: cos_add sin_add)
    have cp: "0 < cos (t + pi)" by (rule cos_gt_zero_pi [OF r])
    have "0 < sin (t + pi)" using lo assms by (intro sin_gt_zero) linarith+
    then have sp: "sin t < 0" using s by linarith
    have "sin t / cos t = tan (t + pi)" unfolding tan_def c s by simp
    then have a: "arctan (sin t / cos t) = t + pi" using arctan_tan [OF r] by simp
    have "cos t < 0" using cp c by linarith
    then have "atan2 (sin t) (cos t) = arctan (sin t / cos t) - pi"
      using sp by (simp add: atan2_def)
    with a show ?thesis by simp
  next
    case top
    have "sin (pi / 2) = 1" "cos (pi / 2) = 0" by simp_all
    then show ?thesis unfolding top by (simp add: atan2_def)
  next
    case bot
    have "sin (- (pi / 2)) = - 1" "cos (- (pi / 2)) = 0" by simp_all
    then show ?thesis unfolding bot by (simp add: atan2_def)
  qed
qed

lemma difference_of_angles_bounds:
  "- pi < difference_of_angles a b \<and> difference_of_angles a b \<le> pi"
  by (simp add: difference_of_angles_def Let_def atan2_bounds)

lemma difference_of_angles_circular:
  "\<exists>k::int. a - b = difference_of_angles a b + 2 * pi * of_int k"
proof -
  define dt where "dt = a - b"
  define k :: int where "k = \<lceil>(dt - pi) / (2 * pi)\<rceil>"
  define t where "t = dt - 2 * pi * of_int k"
  have pos: "0 < 2 * pi" by simp
  have c: "of_int k - 1 < (dt - pi) / (2 * pi)" "(dt - pi) / (2 * pi) \<le> of_int k"
    unfolding k_def using ceiling_correct [of "(dt - pi) / (2 * pi)"] by simp_all
  have u: "dt - pi \<le> 2 * pi * of_int k"
    using c(2) pos by (simp add: pos_divide_le_eq mult.commute)
  have "(of_int k - 1) * (2 * pi) < dt - pi"
    using c(1) pos by (simp add: pos_less_divide_eq)
  then have l: "2 * pi * of_int k < dt + pi" by (simp add: algebra_simps)
  have r: "- pi < t" "t \<le> pi" using u l unfolding t_def by linarith+
  have dt: "dt = t + 2 * pi * of_int k" unfolding t_def by simp
  have "sin dt = sin t" "cos dt = cos t"
    unfolding dt by (simp_all add: sin_add cos_add)
  then have "difference_of_angles a b = t"
    using atan2_sin_cos [OF r] by (simp add: difference_of_angles_def Let_def dt_def)
  then show ?thesis using dt dt_def by auto
qed

section \<open>Float rounding\<close>

lemma math_pi_bounds: "3 < math_pi" "math_pi < 4"
  by (simp_all add: math_pi_def)

lemma float_round_binade_4_8:
  assumes "4 \<le> x" "x < 8"
  shows "float_round x = of_int (round_ties_even (x * 2 ^ 50)) / 2 ^ 50"
proof -
  have pos: "0 < x" using assms by linarith
  have "(2::real) powr 2 \<le> x" using assms by simp
  then have l: "of_int 2 \<le> log 2 x" using pos by (simp add: le_log_iff)
  have "x < (2::real) powr 3" using assms by simp
  then have u: "log 2 x < of_int 2 + 1" using pos by (simp add: log_less_iff)
  have e: "\<lfloor>log 2 \<bar>x\<bar>\<rfloor> = 2" using floor_unique [OF l u] pos by simp
  have p: "(2::real) powr (of_int 2 - 52) = 1 / 2 ^ 50"
  proof -
    have "(2::real) powr (of_int 2 - 52) = 2 powr (- 50)" by simp
    also have "\<dots> = inverse (2 powr 50)" by (rule powr_minus)
    also have "\<dots> = 1 / 2 ^ 50" by (simp add: inverse_eq_divide)
    finally show ?thesis .
  qed
  show ?thesis using pos unfolding float_round_def e Let_def p by simp
qed

lemma round_ties_even_int: "round_ties_even (of_int n) = n"
  by (simp add: round_ties_even_def)

lemma round_ties_even_below:
  assumes "- (1 / 2) \<le> t" "t < 0" "even m"
  shows "round_ties_even (of_int m + t) = m"
proof -
  have f: "\<lfloor>of_int m + t\<rfloor> = m - 1"
    using assms by (intro floor_unique) simp_all
  have o: "odd (m - 1)" using assms(3) by simp
  show ?thesis
    unfolding round_ties_even_def f Let_def using assms(1,2) o by auto
qed

text \<open>
  A negative angle of at most half a unit in the last place of \<^verbatim>\<open>math.pi * 2\<close> is absorbed
  by the float sum.
\<close>

lemma float_round_two_pi:
  assumes "- (1 / 2 ^ 51) \<le> theta" "theta < 0"
  shows "float_round (theta + math_pi * 2) = math_pi * 2"
proof -
  let ?x = "theta + math_pi * 2"
  have b: "4 \<le> ?x" "?x < 8" using assms by (simp_all add: math_pi_def)
  have s: "?x * 2 ^ 50 = of_int 7074237752028440 + theta * 2 ^ 50"
    by (simp add: math_pi_def algebra_simps)
  have t: "- (1 / 2) \<le> theta * 2 ^ 50" "theta * 2 ^ 50 < 0"
    using assms by (simp_all add: field_simps)
  have "round_ties_even (?x * 2 ^ 50) = 7074237752028440"
    unfolding s by (rule round_ties_even_below [OF t]) simp
  then show ?thesis
    unfolding float_round_binade_4_8 [OF b] by (simp add: math_pi_def)
qed

lemma float_round_three_quarter:
  "float_round (- (math_pi / 2) + math_pi * 2) = 3 / 2 * math_pi"
proof -
  let ?x = "- (math_pi / 2) + math_pi * 2"
  have b: "4 \<le> ?x" "?x < 8" by (simp_all add: math_pi_def)
  have s: "?x * 2 ^ 50 = of_int 5305678314021330" by (simp add: math_pi_def)
  show ?thesis
    unfolding float_round_binade_4_8 [OF b] s round_ties_even_int by (simp add: math_pi_def)
qed

section \<open>Normalisation and the result of \<open>calc_mm\<close>\<close>

lemma normalized_range: "0 \<le> normalized theta \<and> normalized theta \<le> 2 * math_pi"
  using math_pi_bounds(1) by (simp add: normalized_def max_def min_def)

lemma normalized_nonneg: "0 \<le> theta \<Longrightarrow> theta \<le> 2 * math_pi \<Longrightarrow> normalized theta = theta"
  by (simp add: normalized_def max_def min_def)

lemma normalized_tiny_negative:
  assumes "- (1 / 2 ^ 51) \<le> theta" "theta < 0"
  shows "normalized theta = 2 * math_pi"
  using float_round_two_pi [OF assms] assms(2) math_pi_bounds(1)
  by (simp add: normalized_def max_def min_def)

lemma normalized_minus_quarter_turn: "normalized (- (math_pi / 2)) = 3 / 2 * math_pi"
  using float_round_three_quarter math_pi_bounds(1)
  by (simp add: normalized_def max_def min_def)

lemma calc_mm_triple:
  "fst (calc_mm st theta_b theta_r) =
     (let mm_b = normalized theta_b / (2 * math_pi);
          mm_r = (normalized theta_r - c_red_angle_start) / (c_red_angle_end - c_red_angle_start)
                   * c_haimer_ball_diam;
          mm_offset = difference_of_angles (normalized theta_b) (modf_frac mm_r * (2 * math_pi))
                        / (2 * math_pi)
      in (mm_r + mm_offset - c_haimer_ball_diam / 2, mm_b, mm_r))"
  by (simp add: calc_mm_def normalized_def Let_def split_def mult.commute mult.left_commute)

text \<open>
  \<^verbatim>\<open>math.modf(x)[0]\<close> is what is left of \<open>x\<close> after a whole number has been taken away,
  smaller than \<open>1\<close> in absolute value and of the sign of \<open>x\<close>.
\<close>

lemma modf_frac_spec:
  "(\<exists>n::int. x = of_int n + modf_frac x) \<and> \<bar>modf_frac x\<bar> < 1 \<and> 0 \<le> modf_frac x * x"
proof (cases "0 \<le> x")
  case True
  then have f: "modf_frac x = x - of_int \<lfloor>x\<rfloor>" by (simp add: modf_frac_def)
  have "0 \<le> x - of_int \<lfloor>x\<rfloor>" "x - of_int \<lfloor>x\<rfloor> < 1" by linarith+
  with True show ?thesis unfolding f by (auto intro: exI [of _ "\<lfloor>x\<rfloor>"])
next
  case False
  then have f: "modf_frac x = x - of_int \<lceil>x\<rceil>" by (simp add: modf_frac_def)
  have "x - of_int \<lceil>x\<rceil> \<le> 0" "- 1 < x - of_int \<lceil>x\<rceil>" by linarith+
  moreover from this False have "0 \<le> (x - of_int \<lceil>x\<rceil>) * x"
    by (simp add: mult_nonpos_nonpos)
  ultimately show ?thesis unfolding f by (auto intro: exI [of _ "\<lceil>x\<rceil>"])
qed

section \<open>The circular mean\<close>

lemma mean_angles_single: "mean_angles [theta] = Some (atan2 (sin theta) (cos theta))"
  by (simp add: mean_angles_def np_mean_def)

lemma mean_angles_Some:
  "lst \<noteq> [] \<Longrightarrow> \<exists>m. mean_angles lst = Some m \<and> - pi < m \<and> m \<le> pi"
  using atan2_bounds by (simp add: mean_angles_def np_mean_def)

lemma mean_angles_range:
  "mean_angles lst = Some m \<Longrightarrow> - pi < m \<and> m \<le> pi"
  using atan2_bounds by (auto simp: mean_angles_def split: option.splits)

lemma mean_angles_own:
  assumes "- pi < theta" "theta \<le> pi"
  shows "mean_angles [theta] = Some theta"
  using atan2_sin_cos [OF assms] by (simp add: mean_angles_single)

lemma mean_angles_small_negative:
  assumes "- 1 \<le> theta" "theta \<le> 2"
  shows "mean_angles [theta] = Some theta"
  using assms pi_ge_two by (intro mean_angles_own) linarith+

lemma mean_angles_three_quarter_turn: "mean_angles [3 / 2 * pi] = Some (- (pi / 2))"
proof -
  have a: "atan2 (- 1) 0 = - (pi / 2)" by (simp add: atan2_def)
  have "mean_angles [3 / 2 * pi] = Some (atan2 (sin (3 / 2 * pi)) (cos (3 / 2 * pi)))"
    by (rule mean_angles_single)
  also have "\<dots> = Some (atan2 (- 1) 0)"
    by (simp only: sin_3over2_pi cos_3over2_pi)
  finally show ?thesis by (simp only: a)
qed

text \<open>
  C4 (as stated): for every angle \<open>theta\<close> in \<open>[0, 2 pi)\<close> the circular mean of the
  one-element list \<open>[theta]\<close> is \<open>theta\<close>. At \<open>theta = 3/2 pi\<close> the mean is \<open>- pi / 2\<close>.
\<close>

theorem mean_angles_single_counterexample:
  "0 \<le> 3 / 2 * pi \<and> 3 / 2 * pi < 2 * pi \<and> mean_angles [3 / 2 * pi] = Some (- (pi / 2))
     \<and> mean_angles [3 / 2 * pi] \<noteq> Some (3 / 2 * pi)"
proof -
  have m: "mean_angles [3 / 2 * pi] = Some (- (pi / 2))"
    by (rule mean_angles_three_quarter_turn)
  have "- (pi / 2) \<noteq> 3 / 2 * pi" using pi_gt_zero by linarith
  with m show ?thesis using pi_gt_zero by simp
qed

text \<open>
  C4 (amended): for every angle \<open>theta\<close> in \<open>[0, 2 pi)\<close> the circular mean of \<open>[theta]\<close> is
  the representative of \<open>theta\<close> in \<open>(- pi, pi]\<close>: \<open>theta\<close> itself when \<open>theta \<le> pi\<close>, and
  \<open>theta - 2 pi\<close> otherwise.
\<close>

theorem mean_angles_single_amended:
  assumes "0 \<le> theta" "theta < 2 * pi"
  shows "mean_angles [theta] = Some (if theta \<le> pi then theta else theta - 2 * pi)"
proof (cases "theta \<le> pi")
  case True
  have "- pi < theta" using assms(1) pi_gt_zero by linarith
  then have "atan2 (sin theta) (cos theta) = theta" using True by (rule atan2_sin_cos)
  with True show ?thesis by (simp add: mean_angles_single)
next
  case False
  have r: "- pi < theta - 2 * pi" "theta - 2 * pi \<le> pi" using False assms(2) by linarith+
  have "sin theta = sin (theta - 2 * pi)" "cos theta = cos (theta - 2 * pi)"
    by (simp_all add: sin_diff cos_diff)
  then have "atan2 (sin theta) (cos theta) = theta - 2 * pi"
    using atan2_sin_cos [OF r] by simp
  with False show ?thesis by (simp add: mean_angles_single)
qed

theorem mean_angles_single_amended_witness:
  "(0::real) \<le> 0 \<and> (0::real) < 2 * pi \<and> mean_angles [0] = Some 0"
  using mean_angles_single_amended [of 0] by simp

text \<open>
  C9 (as stated): the smoothed angles, which lie between \<open>- pi\<close> and \<open>pi\<close>, are brought into
  the half-open interval \<open>[0, 2 pi)\<close> by the normalisation of \<open>calc_mm\<close>. The smoothed angle
  \<open>- 1 / 2 ^ 60\<close> is negative, and its normalisation is \<^verbatim>\<open>math.pi * 2\<close> itself: the float
  sum absorbs it.
\<close>

theorem mean_angles_interval_counterexample:
  "mean_angles [- (1 / 2 ^ 60)] = Some (- (1 / 2 ^ 60))
   \<and> normalized (- (1 / 2 ^ 60)) = 2 * math_pi
   \<and> \<not> normalized (- (1 / 2 ^ 60)) < 2 * math_pi"
proof -
  have m: "mean_angles [- (1 / 2 ^ 60)] = Some (- (1 / 2 ^ 60))"
    by (rule mean_angles_small_negative) simp_all
  have n: "normalized (- (1 / 2 ^ 60)) = 2 * math_pi"
    by (rule normalized_tiny_negative) simp_all
  have "\<not> normalized (- (1 / 2 ^ 60)) < 2 * math_pi" unfolding n by (rule less_irrefl)
  with m n show ?thesis by (intro conjI)
qed

text \<open>
  C9 (amended): for every non-empty list of angles \<open>mean_angles\<close> returns a value between
  \<open>- pi\<close> and \<open>pi\<close>; such a value can be negative (the mean of \<open>[- math.pi / 2]\<close> is
  \<open>- math.pi / 2\<close>), and the normalisation of \<open>calc_mm\<close> is what brings it into the closed
  interval from \<open>0\<close> to \<^verbatim>\<open>math.pi * 2\<close> (here to three quarters of a turn).
\<close>

theorem mean_angles_interval:
  "(lst \<noteq> [] \<longrightarrow>
      (\<exists>m. mean_angles lst = Some m \<and> - pi \<le> m \<and> m \<le> pi
            \<and> 0 \<le> normalized m \<and> normalized m \<le> 2 * math_pi))
   \<and> (\<exists>m. mean_angles [- (math_pi / 2)] = Some m \<and> m < 0 \<and> normalized m = 3 / 2 * math_pi)"
proof (intro conjI impI)
  assume "lst \<noteq> []"
  then obtain m where m: "mean_angles lst = Some m" "- pi < m" "m \<le> pi"
    using mean_angles_Some by blast
  with normalized_range [of m]
  show "\<exists>m. mean_angles lst = Some m \<and> - pi \<le> m \<and> m \<le> pi
            \<and> 0 \<le> normalized m \<and> normalized m \<le> 2 * math_pi"
    by auto
next
  have b: "- pi < - (math_pi / 2)" "- (math_pi / 2) \<le> pi"
    using math_pi_bounds pi_ge_two by linarith+
  have "mean_angles [- (math_pi / 2)] = Some (- (math_pi / 2))"
    by (rule mean_angles_own [OF b])
  moreover have "- (math_pi / 2) < 0" using math_pi_bounds by linarith
  ultimately
  show "\<exists>m. mean_angles [- (math_pi / 2)] = Some m \<and> m < 0 \<and> normalized m = 3 / 2 * math_pi"
    using normalized_minus_quarter_turn by simp
qed

theorem mean_angles_interval_witness:
  "[0::real] \<noteq> [] \<and> mean_angles [0] = Some 0 \<and> normalized 0 = 0"
proof -
  have "\<exists>m. mean_angles [0] = Some m \<and> - pi \<le> m \<and> m \<le> pi
            \<and> 0 \<le> normalized m \<and> normalized m \<le> 2 * math_pi"
    using mean_angles_interval [of "[0]"] by simp
  moreover have "mean_angles [0] = Some 0" by (simp add: mean_angles_single atan2_def)
  moreover have "normalized 0 = 0" by (simp add: normalized_def)
  ultimately show ?thesis by simp
qed

section \<open>The calibrator\<close>

text \<open>
  C1 (as stated): every pair of smoothed angles is normalised into the half-open interval
  \<open>[0, 2 pi)\<close> before the formulas are applied. The smoothed angles \<open>- 1 / 2 ^ 54\<close> and
  \<open>- 1 / 2 ^ 52\<close> are both normalised to \<^verbatim>\<open>math.pi * 2\<close> itself, and \<open>mm_black\<close> is \<open>1\<close>.
\<close>

theorem calc_mm_formula_counterexample:
  "mean_angles [- (1 / 2 ^ 54)] = Some (- (1 / 2 ^ 54))
   \<and> mean_angles [- (1 / 2 ^ 52)] = Some (- (1 / 2 ^ 52))
   \<and> normalized (- (1 / 2 ^ 54)) = 2 * math_pi
   \<and> normalized (- (1 / 2 ^ 52)) = 2 * math_pi
   \<and> \<not> 2 * math_pi < 2 * math_pi
   \<and> fst (snd (fst (calc_mm tare_init (- (1 / 2 ^ 54)) (- (1 / 2 ^ 52))))) = 1"
proof -
  have m1: "mean_angles [- (1 / 2 ^ 54)] = Some (- (1 / 2 ^ 54))"
    by (rule mean_angles_small_negative) simp_all
  have m2: "mean_angles [- (1 / 2 ^ 52)] = Some (- (1 / 2 ^ 52))"
    by (rule mean_angles_small_negative) simp_all
  have n1: "normalized (- (1 / 2 ^ 54)) = 2 * math_pi"
    by (rule normalized_tiny_negative) simp_all
  have n2: "normalized (- (1 / 2 ^ 52)) = 2 * math_pi"
    by (rule normalized_tiny_negative) simp_all
  have "fst (snd (fst (calc_mm tare_init (- (1 / 2 ^ 54)) (- (1 / 2 ^ 52)))))
          = normalized (- (1 / 2 ^ 54)) / (2 * math_pi)"
    by (simp only: calc_mm_triple Let_def fst_conv snd_conv)
  also have "\<dots> = 1" unfolding n1 using math_pi_bounds(1) by simp
  finally have "fst (snd (fst (calc_mm tare_init (- (1 / 2 ^ 54)) (- (1 / 2 ^ 52))))) = 1" .
  moreover have "\<not> 2 * math_pi < 2 * math_pi" by (rule less_irrefl)
  ultimately show ?thesis using m1 m2 n1 n2 by (intro conjI)
qed

text \<open>
  C1 (amended): for every pair of smoothed angles (circular means of the two histories), the
  angles are normalised into the closed interval from \<open>0\<close> to \<^verbatim>\<open>math.pi * 2\<close> (a negative
  angle has \<^verbatim>\<open>math.pi * 2\<close> added in float arithmetic, then the clamp), and \<open>calc_mm\<close>
  returns \<open>mm_black\<close>, \<open>mm_red\<close> and \<open>mm_final = mm_red + offset - ball_diameter / 2\<close>, where
  \<open>mm_black\<close> is the normalised black angle over \<open>2 pi\<close>, \<open>mm_red\<close> maps the normalised red
  angle linearly onto the span, and \<open>offset\<close> is, over \<open>2 pi\<close>, the signed circular
  difference between the black angle and \<open>2 pi\<close> times the fractional part of \<open>mm_red\<close>.
  The fractional part is \<open>mm_red\<close> less a whole number, below \<open>1\<close> in absolute value and of
  the sign of \<open>mm_red\<close>; the signed circular difference is the value in \<open>(- pi, pi]\<close> that
  differs from the plain difference by a whole number of turns.
\<close>

theorem calc_mm_formula:
  assumes "mean_angles bl = Some theta_black" "mean_angles rl = Some theta_red"
  shows "let nb = max 0 (min (math_pi * 2)
                    (if theta_black < 0 then float_round (theta_black + math_pi * 2)
                     else theta_black));
             nr = max 0 (min (math_pi * 2)
                    (if theta_red < 0 then float_round (theta_red + math_pi * 2)
                     else theta_red));
             mm_black = nb / (2 * math_pi);
             mm_red = (nr - c_red_angle_start) / (c_red_angle_end - c_red_angle_start)
                        * c_haimer_ball_diam;
             f = modf_frac mm_red;
             d = difference_of_angles nb (f * (2 * math_pi));
             offset = d / (2 * math_pi);
             mm_blended = mm_red + offset;
             mm_final = mm_blended - c_haimer_ball_diam / 2
         in 0 \<le> nb \<and> nb \<le> 2 * math_pi \<and> 0 \<le> nr \<and> nr \<le> 2 * math_pi
            \<and> (\<exists>n::int. mm_red = of_int n + f) \<and> \<bar>f\<bar> < 1 \<and> 0 \<le> f * mm_red
            \<and> - pi < d \<and> d \<le> pi
            \<and> (\<exists>k::int. nb - f * (2 * math_pi) = d + 2 * pi * of_int k)
            \<and> fst (calc_mm st theta_black theta_red) = (mm_final, mm_black, mm_red)"
proof -
  define nb where "nb = normalized theta_black"
  define nr where "nr = normalized theta_red"
  define mm_red where
    "mm_red = (nr - c_red_angle_start) / (c_red_angle_end - c_red_angle_start) * c_haimer_ball_diam"
  define f where "f = modf_frac mm_red"
  define d where "d = difference_of_angles nb (f * (2 * math_pi))"
  have r: "0 \<le> nb" "nb \<le> 2 * math_pi" "0 \<le> nr" "nr \<le> 2 * math_pi"
    using normalized_range unfolding nb_def nr_def by simp_all
  have fr: "(\<exists>n::int. mm_red = of_int n + f) \<and> \<bar>f\<bar> < 1 \<and> 0 \<le> f * mm_red"
    unfolding f_def by (rule modf_frac_spec)
  have db: "- pi < d \<and> d \<le> pi" unfolding d_def by (rule difference_of_angles_bounds)
  have dc: "\<exists>k::int. nb - f * (2 * math_pi) = d + 2 * pi * of_int k"
    unfolding d_def by (rule difference_of_angles_circular)
  have t: "fst (calc_mm st theta_black theta_red)
             = (mm_red + d / (2 * math_pi) - c_haimer_ball_diam / 2, nb / (2 * math_pi), mm_red)"
    unfolding d_def f_def mm_red_def nr_def nb_def by (simp add: calc_mm_triple Let_def)
  have "0 \<le> nb \<and> nb \<le> 2 * math_pi \<and> 0 \<le> nr \<and> nr \<le> 2 * math_pi
        \<and> (\<exists>n::int. mm_red = of_int n + f) \<and> \<bar>f\<bar> < 1 \<and> 0 \<le> f * mm_red
        \<and> - pi < d \<and> d \<le> pi
        \<and> (\<exists>k::int. nb - f * (2 * math_pi) = d + 2 * pi * of_int k)
        \<and> fst (calc_mm st theta_black theta_red)
            = (mm_red + d / (2 * math_pi) - c_haimer_ball_diam / 2, nb / (2 * math_pi), mm_red)"
    using r fr db dc t by blast
  then show ?thesis
    unfolding Let_def d_def f_def mm_red_def nr_def nb_def normalized_def
    by (simp only: mult.commute [of 2 math_pi])
qed

text \<open>
  Two pairs of smoothed angles with their numbers: a black hand at a quarter turn with a red
  hand at one thirty-second of its span reads \<open>mm_red = 1/8\<close>, is corrected by \<open>1/8\<close> to
  \<open>1/4\<close> and gives \<open>mm_final = - 7/4\<close>; a black hand at \<open>- math.pi / 2\<close> is normalised to
  three quarters of a turn.
\<close>

theorem calc_mm_formula_witness:
  "mean_angles [math_pi / 2] = Some (math_pi / 2)
   \<and> mean_angles [c_red_angle_start + (c_red_angle_end - c_red_angle_start) / 32]
       = Some (c_red_angle_start + (c_red_angle_end - c_red_angle_start) / 32)
   \<and> mean_angles [- (math_pi / 2)] = Some (- (math_pi / 2))
   \<and> fst (calc_mm tare_init (math_pi / 2)
            (c_red_angle_start + (c_red_angle_end - c_red_angle_start) / 32))
       = (- 7 / 4, 1 / 4, 1 / 8)
   \<and> fst (snd (fst (calc_mm tare_init (- (math_pi / 2))
            (c_red_angle_start + (c_red_angle_end - c_red_angle_start) / 32))))
       = 3 / 4"
proof -
  let ?tr = "c_red_angle_start + (c_red_angle_end - c_red_angle_start) / 32"
  have mp: "3 < math_pi" "math_pi < 4" by (rule math_pi_bounds)+
  have tr: "0 \<le> ?tr" "?tr \<le> 2" by (simp_all add: c_red_angle_start_def c_red_angle_end_def)
  have m1: "mean_angles [math_pi / 2] = Some (math_pi / 2)"
    by (rule mean_angles_small_negative) (use mp in linarith)+
  have m2: "mean_angles [?tr] = Some ?tr"
    by (rule mean_angles_small_negative) (use tr in linarith)+
  have m3: "mean_angles [- (math_pi / 2)] = Some (- (math_pi / 2))"
    by (rule mean_angles_own) (use mp pi_ge_two in linarith)+
  have mr: "(?tr - c_red_angle_start) / (c_red_angle_end - c_red_angle_start) * c_haimer_ball_diam
              = 1 / 8"
    by (simp add: c_red_angle_start_def c_red_angle_end_def c_haimer_ball_diam_def)
  have fr: "modf_frac (1 / 8) = 1 / 8" by (simp add: modf_frac_def)
  have "- pi < math_pi / 4" "math_pi / 4 \<le> pi" using mp pi_ge_two by linarith+
  then have "atan2 (sin (math_pi / 4)) (cos (math_pi / 4)) = math_pi / 4"
    by (rule atan2_sin_cos)
  moreover have "math_pi / 2 - 1 / 8 * (2 * math_pi) = math_pi / 4" by simp
  ultimately have d: "difference_of_angles (math_pi / 2) (1 / 8 * (2 * math_pi)) = math_pi / 4"
    by (simp only: difference_of_angles_def Let_def)
  have lt: "\<not> math_pi / 2 < 0" "\<not> ?tr < 0" "- (math_pi / 2) < 0" using mp tr by linarith+
  have c1: "max 0 (min (math_pi * 2) (math_pi / 2)) = math_pi / 2"
    using mp by (simp add: max_def min_def)
  have c2: "max 0 (min (math_pi * 2) ?tr) = ?tr"
    using mp tr by (simp add: max_def min_def)
  have c3: "max 0 (min (math_pi * 2) (float_round (- (math_pi / 2) + math_pi * 2))) = 3 / 2 * math_pi"
    unfolding float_round_three_quarter using mp by (simp add: max_def min_def)
  have q: "math_pi / 2 / (2 * math_pi) = 1 / 4" "math_pi / 4 / (2 * math_pi) = 1 / 8"
    "3 / 2 * math_pi / (2 * math_pi) = 3 / 4"
    using mp by simp_all
  have a: "fst (calc_mm tare_init (math_pi / 2) ?tr) = (- 7 / 4, 1 / 4, 1 / 8)"
    using calc_mm_formula [OF m1 m2, of tare_init]
    unfolding Let_def if_not_P [OF lt(1)] if_not_P [OF lt(2)] c1 c2 mr fr d q
    by (simp add: c_haimer_ball_diam_def)
  have b: "fst (snd (fst (calc_mm tare_init (- (math_pi / 2)) ?tr))) = 3 / 4"
    using calc_mm_formula [OF m3 m2, of tare_init]
    unfolding Let_def if_P [OF lt(3)] if_not_P [OF lt(2)] c2 c3 q
    by simp
  from m1 m2 m3 a b show ?thesis by (simp only: simp_thms)
qed

text \<open>
  C7 (as stated): every angle that \<open>calc_mm\<close> feeds into a linear formula has been
  normalised into the half-open interval \<open>[0, 2 pi)\<close>. The clamp keeps the upper end, and the
  float sum reaches it: the smoothed angle \<open>- 1 / 2 ^ 54\<close> is consumed as \<^verbatim>\<open>math.pi * 2\<close>
  itself, and \<open>mm_black\<close> is \<open>1\<close>.
\<close>

theorem calc_mm_normalization_counterexample:
  "mean_angles [- (1 / 2 ^ 54)] = Some (- (1 / 2 ^ 54))
   \<and> \<not> normalized (- (1 / 2 ^ 54)) < 2 * math_pi
   \<and> fst (snd (fst (calc_mm tare_init (- (1 / 2 ^ 54)) 0))) = 1"
proof -
  have m: "mean_angles [- (1 / 2 ^ 54)] = Some (- (1 / 2 ^ 54))"
    by (rule mean_angles_small_negative) simp_all
  have n: "normalized (- (1 / 2 ^ 54)) = 2 * math_pi"
    by (rule normalized_tiny_negative) simp_all
  have nn: "\<not> normalized (- (1 / 2 ^ 54)) < 2 * math_pi" unfolding n by (rule less_irrefl)
  have "fst (snd (fst (calc_mm tare_init (- (1 / 2 ^ 54)) 0)))
          = normalized (- (1 / 2 ^ 54)) / (2 * math_pi)"
    by (simp only: calc_mm_triple Let_def fst_conv snd_conv)
  also have "\<dots> = 1" unfolding n using math_pi_bounds(1) by simp
  finally have "fst (snd (fst (calc_mm tare_init (- (1 / 2 ^ 54)) 0))) = 1" .
  with m nn show ?thesis by (intro conjI)
qed

text \<open>
  C7 (amended): every angle that \<open>calc_mm\<close> feeds into a linear formula is first normalised
  into the closed interval from \<open>0\<close> to \<^verbatim>\<open>math.pi * 2\<close>: a negative input has
  \<^verbatim>\<open>math.pi * 2\<close> added in float arithmetic and the result is clamped between \<open>0\<close> and
  \<^verbatim>\<open>math.pi * 2\<close> before any linear arithmetic; \<open>mm_black\<close> and \<open>mm_red\<close> are computed from
  the normalised angles.
\<close>

theorem calc_mm_normalization:
  "normalized theta_b =
     max 0 (min (math_pi * 2)
       (if theta_b < 0 then float_round (theta_b + math_pi * 2) else theta_b))
   \<and> normalized theta_r =
     max 0 (min (math_pi * 2)
       (if theta_r < 0 then float_round (theta_r + math_pi * 2) else theta_r))
   \<and> 0 \<le> normalized theta_b \<and> normalized theta_b \<le> 2 * math_pi
   \<and> 0 \<le> normalized theta_r \<and> normalized theta_r \<le> 2 * math_pi
   \<and> fst (snd (fst (calc_mm st theta_b theta_r))) = normalized theta_b / (2 * math_pi)
   \<and> snd (snd (fst (calc_mm st theta_b theta_r))) =
       (normalized theta_r - c_red_angle_start) / (c_red_angle_end - c_red_angle_start)
         * c_haimer_ball_diam"
  using normalized_range [of theta_b] normalized_range [of theta_r]
  by (simp add: calc_mm_triple Let_def) (simp add: normalized_def)

theorem calc_mm_normalization_witness:
  "normalized (- (math_pi / 2)) = 3 / 2 * math_pi
   \<and> normalized (math_pi / 2) = math_pi / 2
   \<and> fst (snd (fst (calc_mm tare_init (- (math_pi / 2)) (math_pi / 2)))) = 3 / 4
   \<and> snd (snd (fst (calc_mm tare_init (- (math_pi / 2)) (math_pi / 2))))
       = (math_pi / 2 - c_red_angle_start) / (c_red_angle_end - c_red_angle_start)
           * c_haimer_ball_diam"
proof -
  have mp: "3 < math_pi" by (rule math_pi_bounds)
  have n1: "normalized (- (math_pi / 2)) = 3 / 2 * math_pi"
    by (rule normalized_minus_quarter_turn)
  have n2: "normalized (math_pi / 2) = math_pi / 2"
    by (rule normalized_nonneg) (use mp in linarith)+
  show ?thesis
    using calc_mm_normalization [of "- (math_pi / 2)" "math_pi / 2" tare_init] mp
    by (simp add: n1 n2)
qed

text \<open>
  C8: the triple returned by \<open>calc_mm\<close> is the same for every state of the tare accumulator
  (tare mode on or off, any content of the list).
\<close>

theorem calc_mm_tare_independent:
  "fst (calc_mm st1 theta_b theta_r) = fst (calc_mm st2 theta_b theta_r)"
  by (simp add: calc_mm_triple)


section \<open>The line filter\<close>

lemma sum_squares_zero_iff:
  "sqrt (real_of_int (a ^ 2 + b ^ 2)) = 0 \<longleftrightarrow> a = 0 \<and> b = 0"
proof -
  have "a ^ 2 + b ^ 2 = 0 \<longleftrightarrow> a = 0 \<and> b = 0" by (rule sum_power2_eq_zero_iff)
  then show ?thesis by (simp del: of_int_add of_int_power)
qed

text \<open>
  Being near the pivot, spelled out: the endpoints differ and the point-to-line distance of
  the pivot from the line through them is below the cutoff.
\<close>

lemma near_pivot_iff:
  "near_pivot (x0, y0) cutoff (x1, y1, x2, y2) \<longleftrightarrow>
     (x1 \<noteq> x2 \<or> y1 \<noteq> y2)
     \<and> real_of_int \<bar>(y2 - y1) * x0 - (x2 - x1) * y0 + x2 * y1 - y2 * x1\<bar>
           / sqrt (real_of_int ((y2 - y1) ^ 2 + (x2 - x1) ^ 2)) < cutoff"
proof (cases "x1 = x2 \<and> y1 = y2")
  case True
  then show ?thesis by (simp add: near_pivot_def np_true_divide_def mult.commute)
next
  case False
  then have "distance_divisor (x1, y1, x2, y2) \<noteq> 0"
    using sum_squares_zero_iff [of "y2 - y1" "x2 - x1"] by auto
  with False show ?thesis by (auto simp: near_pivot_def np_true_divide_def)
qed

lemma find_longest_Cons:
  "find_longest acc (e # rest) =
     (if fst e \<and> (case acc of None \<Rightarrow> True | Some a \<Rightarrow> fst a < seg_length (snd e))
      then find_longest (Some (seg_length (snd e), e)) rest
      else find_longest acc rest)"
  by (cases e; cases acc) (auto simp: Let_def)

lemma find_longest_started: "\<exists>r. find_longest (Some a) xs = Some r"
proof (induction xs arbitrary: a)
  case Nil
  show ?case unfolding find_longest.simps(1) by blast
next
  case (Cons e xs)
  show ?case unfolding find_longest_Cons using Cons.IH by (cases "fst e \<and> fst a < seg_length (snd e)") simp_all
qed

lemma find_longest_None:
  "find_longest None xs = None \<longleftrightarrow> (\<forall>e\<in>set xs. \<not> fst e)"
proof (induction xs)
  case Nil
  show ?case by simp
next
  case (Cons e xs)
  show ?case
  proof (cases "fst e")
    case True
    obtain r where "find_longest (Some (seg_length (snd e), e)) xs = Some r"
      using find_longest_started by blast
    with True show ?thesis unfolding find_longest_Cons by simp
  next
    case False
    with Cons.IH show ?thesis unfolding find_longest_Cons by simp
  qed
qed

lemma find_longest_Some:
  "find_longest acc xs = Some (md, m) \<Longrightarrow>
     (acc = Some (md, m) \<or> (m \<in> set xs \<and> fst m \<and> md = seg_length (snd m)))
     \<and> (\<forall>e\<in>set xs. fst e \<longrightarrow> seg_length (snd e) \<le> md)
     \<and> (\<forall>a. acc = Some a \<longrightarrow> fst a \<le> md)"
proof (induction xs arbitrary: acc)
  case Nil
  then show ?case by auto
next
  case (Cons e xs)
  let ?take = "fst e \<and> (case acc of None \<Rightarrow> True | Some a \<Rightarrow> fst a < seg_length (snd e))"
  show ?case
  proof (cases ?take)
    case True
    with Cons.prems have "find_longest (Some (seg_length (snd e), e)) xs = Some (md, m)"
      unfolding find_longest_Cons by simp
    note IH = Cons.IH [OF this]
    from IH have le: "seg_length (snd e) \<le> md" by simp
    from IH True have m: "m \<in> set (e # xs) \<and> fst m \<and> md = seg_length (snd m)" by auto
    have "fst a \<le> md" if "acc = Some a" for a
      using True that le by simp
    with IH le m show ?thesis by auto
  next
    case False
    with Cons.prems have "find_longest acc xs = Some (md, m)"
      unfolding find_longest_Cons by simp
    note IH = Cons.IH [OF this]
    have "seg_length (snd e) \<le> md" if "fst e"
    proof -
      from False that obtain a where a: "acc = Some a" "\<not> fst a < seg_length (snd e)"
        by (cases acc) auto
      with IH have "fst a \<le> md" by simp
      with a show ?thesis by simp
    qed
    with IH show ?thesis by auto
  qed
qed

lemma set_flag_near:
  "set (flag_near lines c k) = (\<lambda>lst. (near_pivot c k lst, lst)) ` set lines"
  by (simp add: flag_near_def)

lemma longest_of_flagged:
  assumes "find_longest None (flag_near lines c k) = Some (md, m)"
  shows "fst m \<and> snd m \<in> set lines \<and> near_pivot c k (snd m) \<and> md = seg_length (snd m)
         \<and> (\<forall>t\<in>set lines. near_pivot c k t \<longrightarrow> seg_length t \<le> seg_length (snd m))"
  using find_longest_Some [OF assms] by (auto simp: set_flag_near)

lemma set_angle_filter:
  "(inc, lst) \<in> set (angle_filter a0 lines2) \<longleftrightarrow>
     (True, lst) \<in> set lines2 \<and> inc = (\<bar>difference_of_angles a0 (seg_angle lst)\<bar> < math_pi / 8)"
  by (induction lines2) (auto simp: angle_filter_def Let_def)

lemma filter_lines_member:
  assumes "(inc, lst) \<in> set (filter_lines lines c k)"
  shows "lst \<in> set lines \<and> (inc \<longrightarrow> near_pivot c k lst)"
  using assms
  by (auto simp: filter_lines_def Let_def set_flag_near set_angle_filter split: option.splits)

lemma filter_lines_clustered:
  assumes "(inc, lst) \<in> set (filter_lines lines c k)" "\<exists>t\<in>set lines. near_pivot c k t"
  shows "\<exists>m. m \<in> set lines \<and> near_pivot c k m
           \<and> (\<forall>t\<in>set lines. near_pivot c k t \<longrightarrow> seg_length t \<le> seg_length m)
           \<and> find_longest None (flag_near lines c k) = Some (seg_length m, True, m)
           \<and> near_pivot c k lst
           \<and> inc = (\<bar>difference_of_angles (seg_angle m) (seg_angle lst)\<bar> < math_pi / 8)"
proof -
  from assms(2) have "\<exists>e\<in>set (flag_near lines c k). fst e"
    by (auto simp: set_flag_near)
  then have "find_longest None (flag_near lines c k) \<noteq> None"
    by (simp add: find_longest_None)
  then obtain md m where fl: "find_longest None (flag_near lines c k) = Some (md, m)"
    by auto
  note L = longest_of_flagged [OF fl]
  obtain b ms where m: "m = (b, ms)" by (cases m)
  with L have b: "b = True" by simp
  have mem: "(inc, lst) \<in> set (angle_filter (seg_angle ms) (flag_near lines c k))"
    using assms(1) fl m by (simp add: filter_lines_def Let_def)
  then have "(True, lst) \<in> set (flag_near lines c k)"
    and i: "inc = (\<bar>difference_of_angles (seg_angle ms) (seg_angle lst)\<bar> < math_pi / 8)"
    by (simp_all add: set_angle_filter)
  then have "near_pivot c k lst" by (auto simp: set_flag_near)
  with L fl m b i show ?thesis by (intro exI [of _ ms]) auto
qed

text \<open>
  C3: whatever the candidate set, an entry of the result of \<open>filter_lines\<close> is marked as
  included only if its segment is near the pivot: its endpoints differ and the
  point-to-line distance of the pivot from the line through them is below the cutoff. A
  segment that is not near the pivot is never marked as included, whatever its length. When
  at least one candidate is near the pivot, every entry of the result is a near-pivot
  segment, and it is marked as included exactly if the absolute signed circular difference
  \<open>d\<close> between the orientation of the longest near-pivot segment (the first of maximal
  length, which the second stage selects) and its own orientation is below \<open>pi / 8\<close>. The
  orientation of a segment is \<open>atan2\<close> of its coordinate differences plus a quarter turn, and
  \<open>d\<close> is the value in \<open>(- pi, pi]\<close> that differs from the plain difference of the two
  orientations by a whole number of turns.
\<close>

theorem filter_lines_included:
  assumes "(inc, (x1, y1, x2, y2)) \<in> set (filter_lines lines (x0, y0) cutoff)"
  shows "(x1, y1, x2, y2) \<in> set lines
     \<and> near_pivot (x0, y0) cutoff (x1, y1, x2, y2) =
         ((x1 \<noteq> x2 \<or> y1 \<noteq> y2)
          \<and> real_of_int \<bar>(y2 - y1) * x0 - (x2 - x1) * y0 + x2 * y1 - y2 * x1\<bar>
                / sqrt (real_of_int ((y2 - y1) ^ 2 + (x2 - x1) ^ 2)) < cutoff)
     \<and> (inc \<longrightarrow> near_pivot (x0, y0) cutoff (x1, y1, x2, y2))
     \<and> (\<not> near_pivot (x0, y0) cutoff (x1, y1, x2, y2) \<longrightarrow> \<not> inc)
     \<and> ((\<exists>t\<in>set lines. near_pivot (x0, y0) cutoff t) \<longrightarrow>
          near_pivot (x0, y0) cutoff (x1, y1, x2, y2)
          \<and> (\<exists>a1 b1 a2 b2 d.
                (a1, b1, a2, b2) \<in> set lines
                \<and> near_pivot (x0, y0) cutoff (a1, b1, a2, b2)
                \<and> (\<forall>t\<in>set lines. near_pivot (x0, y0) cutoff t \<longrightarrow>
                      seg_length t \<le> sqrt (real_of_int ((a1 - a2) ^ 2 + (b1 - b2) ^ 2)))
                \<and> find_longest None (flag_near lines (x0, y0) cutoff)
                    = Some (sqrt (real_of_int ((a1 - a2) ^ 2 + (b1 - b2) ^ 2)), True, (a1, b1, a2, b2))
                \<and> - pi < d \<and> d \<le> pi
                \<and> (\<exists>k::int.
                      (atan2 (real_of_int (b2 - b1)) (real_of_int (a2 - a1)) + math_pi / 2)
                        - (atan2 (real_of_int (y2 - y1)) (real_of_int (x2 - x1)) + math_pi / 2)
                      = d + 2 * pi * of_int k)
                \<and> inc = (\<bar>d\<bar> < math_pi / 8)))"
proof -
  let ?lst = "(x1, y1, x2, y2)" and ?c = "(x0, y0)"
  note mem = filter_lines_member [OF assms]
  have np: "near_pivot ?c cutoff ?lst =
         ((x1 \<noteq> x2 \<or> y1 \<noteq> y2)
          \<and> real_of_int \<bar>(y2 - y1) * x0 - (x2 - x1) * y0 + x2 * y1 - y2 * x1\<bar>
                / sqrt (real_of_int ((y2 - y1) ^ 2 + (x2 - x1) ^ 2)) < cutoff)"
    by (rule near_pivot_iff)
  have cl: "near_pivot ?c cutoff ?lst
          \<and> (\<exists>a1 b1 a2 b2 d.
                (a1, b1, a2, b2) \<in> set lines
                \<and> near_pivot ?c cutoff (a1, b1, a2, b2)
                \<and> (\<forall>t\<in>set lines. near_pivot ?c cutoff t \<longrightarrow>
                      seg_length t \<le> sqrt (real_of_int ((a1 - a2) ^ 2 + (b1 - b2) ^ 2)))
                \<and> find_longest None (flag_near lines ?c cutoff)
                    = Some (sqrt (real_of_int ((a1 - a2) ^ 2 + (b1 - b2) ^ 2)), True, (a1, b1, a2, b2))
                \<and> - pi < d \<and> d \<le> pi
                \<and> (\<exists>k::int.
                      (atan2 (real_of_int (b2 - b1)) (real_of_int (a2 - a1)) + math_pi / 2)
                        - (atan2 (real_of_int (y2 - y1)) (real_of_int (x2 - x1)) + math_pi / 2)
                      = d + 2 * pi * of_int k)
                \<and> inc = (\<bar>d\<bar> < math_pi / 8))"
    if ex: "\<exists>t\<in>set lines. near_pivot ?c cutoff t"
  proof -
    from filter_lines_clustered [OF assms ex] obtain m where m:
      "m \<in> set lines" "near_pivot ?c cutoff m"
      "\<forall>t\<in>set lines. near_pivot ?c cutoff t \<longrightarrow> seg_length t \<le> seg_length m"
      "find_longest None (flag_near lines ?c cutoff) = Some (seg_length m, True, m)"
      "near_pivot ?c cutoff ?lst"
      "inc = (\<bar>difference_of_angles (seg_angle m) (seg_angle ?lst)\<bar> < math_pi / 8)"
      by blast
    obtain a1 b1 a2 b2 where ms: "m = (a1, b1, a2, b2)" by (cases m)
    define d where "d = difference_of_angles (seg_angle m) (seg_angle ?lst)"
    have sl: "seg_length m = sqrt (real_of_int ((a1 - a2) ^ 2 + (b1 - b2) ^ 2))"
      unfolding ms by simp
    have an: "seg_angle m = atan2 (real_of_int (b2 - b1)) (real_of_int (a2 - a1)) + math_pi / 2"
      "seg_angle ?lst = atan2 (real_of_int (y2 - y1)) (real_of_int (x2 - x1)) + math_pi / 2"
      unfolding ms by (simp_all add: line_angle_def Let_def)
    have db: "- pi < d" "d \<le> pi" unfolding d_def using difference_of_angles_bounds by simp_all
    have dc: "\<exists>k::int.
                (atan2 (real_of_int (b2 - b1)) (real_of_int (a2 - a1)) + math_pi / 2)
                  - (atan2 (real_of_int (y2 - y1)) (real_of_int (x2 - x1)) + math_pi / 2)
                = d + 2 * pi * of_int k"
      unfolding d_def an [symmetric] by (rule difference_of_angles_circular)
    have i: "inc = (\<bar>d\<bar> < math_pi / 8)" unfolding d_def by (rule m(6))
    from m(1-4) have
      "(a1, b1, a2, b2) \<in> set lines" "near_pivot ?c cutoff (a1, b1, a2, b2)"
      "\<forall>t\<in>set lines. near_pivot ?c cutoff t \<longrightarrow>
          seg_length t \<le> sqrt (real_of_int ((a1 - a2) ^ 2 + (b1 - b2) ^ 2))"
      "find_longest None (flag_near lines ?c cutoff)
         = Some (sqrt (real_of_int ((a1 - a2) ^ 2 + (b1 - b2) ^ 2)), True, (a1, b1, a2, b2))"
      unfolding sl [symmetric] unfolding ms by simp_all
    with m(5) db dc i show ?thesis by blast
  qed
  from mem np cl show ?thesis by blast
qed

text \<open>
  Three candidates around the pivot \<open>(0, 0)\<close> with cutoff \<open>5\<close>: the segment from \<open>(0, 0)\<close>
  to \<open>(2, 0)\<close> is the longest near the pivot and is included; the segment from \<open>(0, 0)\<close> to
  \<open>(0, 1)\<close> is near the pivot but at a right angle to it and is marked as not included;
  the segment from \<open>(0, 100)\<close> to \<open>(1, 100)\<close> is \<open>100\<close> away and is not in the result.
\<close>

theorem filter_lines_included_witness:
  "filter_lines [(0, 0, 2, 0), (0, 0, 0, 1), (0, 100, 1, 100)] (0, 0) 5
     = [(True, (0, 0, 2, 0)), (False, (0, 0, 0, 1))]
   \<and> near_pivot (0, 0) 5 (0, 0, 2, 0) \<and> near_pivot (0, 0) 5 (0, 0, 0, 1)
   \<and> \<not> near_pivot (0, 0) 5 (0, 100, 1, 100)
   \<and> find_longest None (flag_near [(0, 0, 2, 0), (0, 0, 0, 1), (0, 100, 1, 100)] (0, 0) 5)
       = Some (2, True, (0, 0, 2, 0))
   \<and> difference_of_angles (seg_angle (0, 0, 2, 0)) (seg_angle (0, 0, 0, 1)) = - (pi / 2)
   \<and> \<not> \<bar>- (pi / 2)\<bar> < math_pi / 8"
proof -
  let ?lines = "[(0, 0, 2, 0), (0, 0, 0, 1), (0, 100, 1, 100)] :: seg list"
  have mp: "3 < math_pi" "math_pi < 4" by (rule math_pi_bounds)+
  have n1: "near_pivot (0, 0) 5 (0, 0, 2, 0)"
    by (simp add: near_pivot_def np_true_divide_def)
  have n2: "near_pivot (0, 0) 5 (0, 0, 0, 1)"
    by (simp add: near_pivot_def np_true_divide_def)
  have n3: "\<not> near_pivot (0, 0) 5 (0, 100, 1, 100)"
    by (simp add: near_pivot_def np_true_divide_def)
  have fn: "flag_near ?lines (0, 0) 5
              = [(True, (0, 0, 2, 0)), (True, (0, 0, 0, 1)), (False, (0, 100, 1, 100))]"
    using n1 n2 n3 by (simp add: flag_near_def)
  have fl: "find_longest None (flag_near ?lines (0, 0) 5) = Some (2, True, (0, 0, 2, 0))"
    unfolding fn by simp
  have a0: "seg_angle (0, 0, 2, 0) = math_pi / 2"
    by (simp add: line_angle_def atan2_def)
  have a1: "seg_angle (0, 0, 0, 1) = pi / 2 + math_pi / 2"
    by (simp add: line_angle_def atan2_def)
  have d1: "difference_of_angles (math_pi / 2) (math_pi / 2) = 0"
    by (simp add: difference_of_angles_def atan2_def)
  have "math_pi / 2 - (pi / 2 + math_pi / 2) = - (pi / 2)" by simp
  moreover have "atan2 (sin (- (pi / 2))) (cos (- (pi / 2))) = - (pi / 2)"
    by (simp add: atan2_def)
  ultimately have d2: "difference_of_angles (math_pi / 2) (pi / 2 + math_pi / 2) = - (pi / 2)"
    by (simp only: difference_of_angles_def Let_def)
  have far: "\<not> \<bar>- (pi / 2)\<bar> < math_pi / 8" using pi_ge_two mp by simp
  have p: "0 < math_pi" "\<not> 4 * pi < math_pi" using mp pi_ge_two by linarith+
  have out: "filter_lines ?lines (0, 0) 5 = [(True, (0, 0, 2, 0)), (False, (0, 0, 0, 1))]"
    unfolding filter_lines_def Let_def fl
    by (simp add: fn angle_filter_def Let_def a0 a1 d1 d2 p del: seg_angle.simps)
  then have mem: "(False, (0, 0, 0, 1)) \<in> set (filter_lines ?lines (0, 0) 5)" by simp
  have dd: "difference_of_angles (seg_angle (0, 0, 2, 0)) (seg_angle (0, 0, 0, 1)) = - (pi / 2)"
    unfolding a0 a1 by (rule d2)
  from filter_lines_included [OF mem] have "(0, 0, 0, 1) \<in> set ?lines" by blast
  with out n1 n2 n3 fl dd far show ?thesis by (intro conjI)
qed

text \<open>
  C10: if no candidate segment is near the pivot, the search for the longest near-pivot
  segment ends with \<open>md\<close> still \<open>None\<close>, so the angle stage is skipped, \<open>filter_lines\<close>
  returns every candidate marked as not included, and \<open>summarize_lines\<close> of that result is
  \<open>None\<close>.
\<close>

theorem filter_lines_none_near:
  assumes "\<forall>lst\<in>set lines. \<not> near_pivot image_center cutoff lst"
  shows "find_longest None (flag_near lines image_center cutoff) = None
     \<and> filter_lines lines image_center cutoff = map (\<lambda>lst. (False, lst)) lines
     \<and> summarize_lines (filter_lines lines image_center cutoff) image_center = None"
proof -
  have fl: "find_longest None (flag_near lines image_center cutoff) = None"
    using assms by (auto simp: find_longest_None set_flag_near)
  have fn: "flag_near lines image_center cutoff = map (\<lambda>lst. (False, lst)) lines"
    using assms by (simp add: flag_near_def)
  have out: "filter_lines lines image_center cutoff = map (\<lambda>lst. (False, lst)) lines"
    using fl fn by (simp add: filter_lines_def Let_def)
  have "endpoint_angles image_center (False, lst) = []" for lst
    by (cases lst) simp
  then have "concat (map (endpoint_angles image_center) (map (\<lambda>lst. (False, lst)) lines)) = []"
    by (simp add: comp_def)
  then have "summarize_lines (map (\<lambda>lst. (False, lst)) lines) image_center = None"
    by (simp add: summarize_lines_def)
  with fl out show ?thesis by simp
qed

theorem filter_lines_none_near_witness:
  "\<not> near_pivot (0, 0) 5 (0, 100, 1, 100)
   \<and> filter_lines [(0, 100, 1, 100)] (0, 0) 5 = [(False, (0, 100, 1, 100))]
   \<and> summarize_lines (filter_lines [(0, 100, 1, 100)] (0, 0) 5) (0, 0) = None"
proof -
  have h: "\<forall>lst\<in>set [(0, 100, 1, 100)]. \<not> near_pivot (0, 0) 5 lst"
    by (simp add: near_pivot_def np_true_divide_def)
  from filter_lines_none_near [OF h] h show ?thesis by (simp add: summarize_lines_def)
qed

text \<open>
  C5 (as stated): \<open>filter_lines\<close> never divides by a zero-length difference vector. For the
  segment from \<open>(1, 1)\<close> to \<open>(1, 1)\<close> the divisor of the distance is \<open>0\<close> and the division
  is carried out: the distance is \<open>0 / 0.0\<close>, NaN.
\<close>

theorem zero_length_segment_counterexample:
  "distance_divisor (1, 1, 1, 1) = 0
   \<and> pivot_distance (1, 1, 1, 1) (0, 0) = np_true_divide 0 (distance_divisor (1, 1, 1, 1))
   \<and> pivot_distance (1, 1, 1, 1) (0, 0) = NaN"
  by (simp add: np_true_divide_def)

text \<open>
  C5 (amended): the distance computation of \<open>filter_lines\<close> has no guard; its divisor is
  zero exactly for a segment whose endpoints coincide, and for such a segment the division
  \<open>0 / 0.0\<close> is carried out and gives NaN without raising. As the comparison of NaN with the
  cutoff is false, a zero-length segment is not near the pivot and no entry of the result
  marks it as included.
\<close>

theorem zero_length_segment:
  "(distance_divisor (x1, y1, x2, y2) = 0 \<longleftrightarrow> x1 = x2 \<and> y1 = y2)
   \<and> pivot_distance (x, y, x, y) image_center = NaN
   \<and> \<not> near_pivot image_center cutoff (x, y, x, y)
   \<and> ((inc, (x, y, x, y)) \<in> set (filter_lines lines image_center cutoff) \<longrightarrow> \<not> inc)"
proof -
  have d: "distance_divisor (x1, y1, x2, y2) = 0 \<longleftrightarrow> x1 = x2 \<and> y1 = y2"
    using sum_squares_zero_iff [of "y2 - y1" "x2 - x1"] by auto
  have n: "pivot_distance (x, y, x, y) image_center = NaN"
    by (cases image_center) (simp add: np_true_divide_def mult.commute)
  then have nn: "\<not> near_pivot image_center cutoff (x, y, x, y)"
    by (simp add: near_pivot_def)
  have "\<not> inc" if "(inc, (x, y, x, y)) \<in> set (filter_lines lines image_center cutoff)"
    using filter_lines_member [OF that] nn by blast
  with d n nn show ?thesis by blast
qed

theorem zero_length_segment_witness:
  "(False, (1, 1, 1, 1)) \<in> set (filter_lines [(1, 1, 1, 1)] (0, 0) 5)
   \<and> pivot_distance (1, 1, 1, 1) (0, 0) = NaN
   \<and> filter_lines [(1, 1, 1, 1)] (0, 0) 5 = [(False, (1, 1, 1, 1))]"
proof -
  have n: "\<not> near_pivot (0, 0) 5 (1, 1, 1, 1)"
    by (simp add: near_pivot_def np_true_divide_def)
  then have f: "filter_lines [(1, 1, 1, 1)] (0, 0) 5 = [(False, (1, 1, 1, 1))]"
    by (simp add: filter_lines_def flag_near_def Let_def)
  then have mem: "(False, (1, 1, 1, 1)) \<in> set (filter_lines [(1, 1, 1, 1)] (0, 0) 5)" by simp
  from zero_length_segment [of 1 1 1 1 1 1 "(0, 0)" 5 False "[(1, 1, 1, 1)]"] mem f
  show ?thesis by simp
qed

section \<open>The measurement cycle\<close>

lemma get_measurement_result:
  "get_measurement s lines_b lines_r c =
     (let bl = append_v (theta_b_l s) (arrow_common lines_b c) c_history_capacity;
          rl = append_v (theta_r_l s) (arrow_common lines_r c) c_history_capacity;
          s1 = s\<lparr>theta_b_l := bl, theta_r_l := rl\<rparr>
      in if bl \<noteq> [] \<and> rl \<noteq> []
         then (case (mean_angles bl, mean_angles rl) of
                 (Some tb, Some tr) \<Rightarrow>
                   (Some (fst (fst (calc_mm (tare s) tb tr))),
                    s1\<lparr>tare := fst (snd (calc_mm (tare s) tb tr))\<rparr>)
               | _ \<Rightarrow> (None, s1))
         else (None, s1))"
  by (simp add: get_measurement_def Let_def split_def split: option.splits)

text \<open>
  C2: in a measurement cycle, with the two histories as they are after this cycle's samples
  have been pushed, \<open>get_measurement\<close> returns a number, the \<open>mm_final\<close> of \<open>calc_mm\<close> at the
  circular means of the two histories, if and only if both histories are non-empty;
  otherwise it returns \<open>None\<close> as the measurement.
\<close>

theorem get_measurement_pending:
  "let bl = append_v (theta_b_l s) (arrow_common lines_b image_center) c_history_capacity;
       rl = append_v (theta_r_l s) (arrow_common lines_r image_center) c_history_capacity;
       r = get_measurement s lines_b lines_r image_center
   in theta_b_l (snd r) = bl \<and> theta_r_l (snd r) = rl
      \<and> (fst r \<noteq> None \<longleftrightarrow> bl \<noteq> [] \<and> rl \<noteq> [])
      \<and> (bl \<noteq> [] \<and> rl \<noteq> [] \<longrightarrow>
            (\<exists>tb tr. mean_angles bl = Some tb \<and> mean_angles rl = Some tr
                      \<and> fst r = Some (fst (fst (calc_mm (tare s) tb tr)))))
      \<and> (bl = [] \<or> rl = [] \<longrightarrow> fst r = None)"
proof -
  define bl where "bl = append_v (theta_b_l s) (arrow_common lines_b image_center) c_history_capacity"
  define rl where "rl = append_v (theta_r_l s) (arrow_common lines_r image_center) c_history_capacity"
  define r where "r = get_measurement s lines_b lines_r image_center"
  have r: "r = (if bl \<noteq> [] \<and> rl \<noteq> []
                then (case (mean_angles bl, mean_angles rl) of
                        (Some tb, Some tr) \<Rightarrow>
                          (Some (fst (fst (calc_mm (tare s) tb tr))),
                           s\<lparr>theta_b_l := bl, theta_r_l := rl,
                              tare := fst (snd (calc_mm (tare s) tb tr))\<rparr>)
                      | _ \<Rightarrow> (None, s\<lparr>theta_b_l := bl, theta_r_l := rl\<rparr>))
                else (None, s\<lparr>theta_b_l := bl, theta_r_l := rl\<rparr>))"
    unfolding r_def bl_def rl_def get_measurement_result Let_def by simp
  have empty: "fst r = None \<and> theta_b_l (snd r) = bl \<and> theta_r_l (snd r) = rl"
    if "bl = [] \<or> rl = []"
    using that r by auto
  have full: "\<exists>tb tr. mean_angles bl = Some tb \<and> mean_angles rl = Some tr
               \<and> fst r = Some (fst (fst (calc_mm (tare s) tb tr)))
               \<and> theta_b_l (snd r) = bl \<and> theta_r_l (snd r) = rl"
    if ne: "bl \<noteq> [] \<and> rl \<noteq> []"
  proof -
    obtain tb where tb: "mean_angles bl = Some tb" using mean_angles_Some ne by blast
    obtain tr where tr: "mean_angles rl = Some tr" using mean_angles_Some ne by blast
    show ?thesis using r ne tb tr by simp
  qed
  have "theta_b_l (snd r) = bl \<and> theta_r_l (snd r) = rl
      \<and> (fst r \<noteq> None \<longleftrightarrow> bl \<noteq> [] \<and> rl \<noteq> [])
      \<and> (bl \<noteq> [] \<and> rl \<noteq> [] \<longrightarrow>
            (\<exists>tb tr. mean_angles bl = Some tb \<and> mean_angles rl = Some tr
                      \<and> fst r = Some (fst (fst (calc_mm (tare s) tb tr)))))
      \<and> (bl = [] \<or> rl = [] \<longrightarrow> fst r = None)"
  proof (cases "bl \<noteq> [] \<and> rl \<noteq> []")
    case True
    from full [OF True] True show ?thesis by auto
  next
    case False
    then have "bl = [] \<or> rl = []" by simp
    from empty [OF this] False show ?thesis by auto
  qed
  then show ?thesis unfolding Let_def bl_def rl_def r_def by simp
qed

theorem get_measurement_pending_witness:
  "fst (get_measurement \<lparr>theta_b_l = [], theta_r_l = [0], tare = tare_init\<rparr> None None (0, 0)) = None
   \<and> fst (get_measurement \<lparr>theta_b_l = [0], theta_r_l = [0], tare = tare_init\<rparr> None None (0, 0))
       = Some (fst (fst (calc_mm tare_init 0 0)))"
proof -
  have m: "mean_angles [0] = Some 0" by (simp add: mean_angles_single atan2_def)
  have a: "append_v l None n = l" for l :: "real list" and n
    by (simp add: append_v_def)
  have "fst (get_measurement \<lparr>theta_b_l = [], theta_r_l = [0], tare = tare_init\<rparr> None None (0, 0)) = None"
    using get_measurement_pending
      [of "\<lparr>theta_b_l = [], theta_r_l = [0], tare = tare_init\<rparr>" None "(0, 0)" None]
    by (simp add: Let_def arrow_common_def a)
  moreover
  have "fst (get_measurement \<lparr>theta_b_l = [0], theta_r_l = [0], tare = tare_init\<rparr> None None (0, 0))
          = Some (fst (fst (calc_mm tare_init 0 0)))"
    using get_measurement_pending
      [of "\<lparr>theta_b_l = [0], theta_r_l = [0], tare = tare_init\<rparr>" None "(0, 0)" None]
    by (simp add: Let_def arrow_common_def a m)
  ultimately show ?thesis by simp
qed

section \<open>The skeleton loop\<close>

lemma build_image_h: "img_h (build_image h w f) = h"
  by (simp add: img_h_def build_image_def)

lemma build_image_w: "0 < h \<Longrightarrow> img_w (build_image h w f) = w"
  by (simp add: img_w_def build_image_def upt_conv_Cons)

lemma build_image_pixel: "y < h \<Longrightarrow> x < w \<Longrightarrow> pixel (build_image h w f) y x = f y x"
  by (simp add: pixel_def build_image_def)

lemma build_image_rectangular: "0 < h \<Longrightarrow> 0 < w \<Longrightarrow> rectangular (build_image h w f)"
  by (simp add: rectangular_def build_image_w) (auto simp: build_image_def list_all_iff)

lemma rectangular_row: "rectangular img \<Longrightarrow> y < img_h img \<Longrightarrow> length (img ! y) = img_w img"
  by (simp add: rectangular_def img_h_def list_all_length)

lemma rectangular_pos: "rectangular img \<Longrightarrow> 0 < img_h img \<and> 0 < img_w img"
  by (simp add: rectangular_def img_h_def)

lemma erode_dims:
  assumes "rectangular img"
  shows "img_h (erode img) = img_h img" "img_w (erode img) = img_w img" "rectangular (erode img)"
  using rectangular_pos [OF assms]
  by (simp_all add: erode_def Let_def build_image_h build_image_w build_image_rectangular)

lemma foldr_min_le: "v \<in> set vs \<Longrightarrow> foldr min vs (a::8 word) \<le> v"
  by (induction vs) (auto simp: min.coboundedI2)

lemma erode_pixel_le:
  assumes "rectangular img" "y < img_h img" "x < img_w img"
    and "(j, i) \<in> set (cross_neighbourhood (img_h img) (img_w img) y x)"
  shows "pixel (erode img) y x \<le> pixel img j i"
proof -
  have "pixel (erode img) y x =
          foldr min (map (\<lambda>(j, i). pixel img j i) (cross_neighbourhood (img_h img) (img_w img) y x)) 255"
    using assms(2,3) by (simp add: erode_def Let_def build_image_pixel)
  moreover have "pixel img j i \<in> set (map (\<lambda>(j, i). pixel img j i) (cross_neighbourhood (img_h img) (img_w img) y x))"
    using assms(4) by force
  ultimately show ?thesis by (simp add: foldr_min_le)
qed

lemma erode_pixel_zero:
  assumes "rectangular img" "y < img_h img" "x < img_w img"
    and "(j, i) \<in> set (cross_neighbourhood (img_h img) (img_w img) y x)" "pixel img j i = 0"
  shows "pixel (erode img) y x = 0"
  using erode_pixel_le [OF assms(1-4)] assms(5) by simp

lemma foreground_erode_subset:
  assumes "rectangular img"
  shows "foreground (erode img) \<subseteq> foreground img"
proof
  fix p assume p: "p \<in> foreground (erode img)"
  obtain y x where yx: "p = (y, x)" by (cases p)
  from p yx have b: "y < img_h img" "x < img_w img" and nz: "pixel (erode img) y x \<noteq> 0"
    by (simp_all add: foreground_def erode_dims [OF assms])
  have "(y, x) \<in> set (cross_neighbourhood (img_h img) (img_w img) y x)"
    by (simp add: cross_neighbourhood_def)
  from erode_pixel_zero [OF assms b this] nz have "pixel img y x \<noteq> 0" by blast
  with b yx show "p \<in> foreground img" by (simp add: foreground_def)
qed

lemma finite_foreground: "finite (foreground img)"
proof -
  have "foreground img \<subseteq> {..<img_h img} \<times> {..<img_w img}"
    by (auto simp: foreground_def)
  then show ?thesis by (rule finite_subset) simp
qed

lemma step_up:
  fixes P :: "nat \<Rightarrow> bool"
  assumes "\<not> P a" "P b" "a \<le> b"
  shows "\<exists>i. a \<le> i \<and> i < b \<and> \<not> P i \<and> P (Suc i)"
  using assms(3,1,2)
proof (induction b rule: dec_induct)
  case base
  then show ?case by simp
next
  case (step n)
  show ?case
  proof (cases "P n")
    case True
    from step.IH [OF step.prems(1) True] show ?thesis
      by (meson less_Suc_eq)
  next
    case False
    with step show ?thesis by auto
  qed
qed

lemma has_background_boundary:
  assumes "has_background img" "foreground img \<noteq> {}"
  shows "\<exists>y x j i. y < img_h img \<and> x < img_w img \<and> pixel img y x \<noteq> 0
           \<and> (j, i) \<in> set (cross_neighbourhood (img_h img) (img_w img) y x) \<and> pixel img j i = 0"
proof -
  let ?h = "img_h img" and ?w = "img_w img"
  from assms(1) obtain qy qx where q: "qy < ?h" "qx < ?w" "pixel img qy qx = 0"
    by (auto simp: has_background_def)
  from assms(2) obtain py px where p: "py < ?h" "px < ?w" "pixel img py px \<noteq> 0"
    by (auto simp: foreground_def)
  have row: "\<exists>x i. x < ?w \<and> i < ?w \<and> pixel img y x \<noteq> 0 \<and> pixel img y i = 0
               \<and> (x = Suc i \<or> i = Suc x)"
    if "a < ?w" "b < ?w" "pixel img y a = 0" "pixel img y b \<noteq> 0" for y a b
  proof (cases "a \<le> b")
    case True
    from step_up [of "\<lambda>k. pixel img y k \<noteq> 0" a b] that True
    obtain i where "a \<le> i" "i < b" "pixel img y i = 0" "pixel img y (Suc i) \<noteq> 0" by auto
    with that show ?thesis by (intro exI [of _ "Suc i"] exI [of _ i]) auto
  next
    case False
    from step_up [of "\<lambda>k. pixel img y k = 0" b a] that False
    obtain i where "b \<le> i" "i < a" "pixel img y i \<noteq> 0" "pixel img y (Suc i) = 0" by auto
    with that show ?thesis by (intro exI [of _ i] exI [of _ "Suc i"]) auto
  qed
  have col: "\<exists>y j. y < ?h \<and> j < ?h \<and> pixel img y x \<noteq> 0 \<and> pixel img j x = 0
               \<and> (y = Suc j \<or> j = Suc y)"
    if "a < ?h" "b < ?h" "pixel img a x = 0" "pixel img b x \<noteq> 0" for x a b
  proof (cases "a \<le> b")
    case True
    from step_up [of "\<lambda>k. pixel img k x \<noteq> 0" a b] that True
    obtain i where "a \<le> i" "i < b" "pixel img i x = 0" "pixel img (Suc i) x \<noteq> 0" by auto
    with that show ?thesis by (intro exI [of _ "Suc i"] exI [of _ i]) auto
  next
    case False
    from step_up [of "\<lambda>k. pixel img k x = 0" b a] that False
    obtain i where "b \<le> i" "i < a" "pixel img i x \<noteq> 0" "pixel img (Suc i) x = 0" by auto
    with that show ?thesis by (intro exI [of _ i] exI [of _ "Suc i"]) auto
  qed
  show ?thesis
  proof (cases "pixel img qy px = 0")
    case True
    from col [OF q(1) p(1) True p(3)]
    obtain y j where "y < ?h" "j < ?h" "pixel img y px \<noteq> 0" "pixel img j px = 0"
      "y = Suc j \<or> j = Suc y" by blast
    moreover from this have "(j, px) \<in> set (cross_neighbourhood ?h ?w y px)"
      by (auto simp: cross_neighbourhood_def)
    ultimately show ?thesis using p(2) by blast
  next
    case False
    from row [OF q(2) p(2) q(3) False]
    obtain x i where "x < ?w" "i < ?w" "pixel img qy x \<noteq> 0" "pixel img qy i = 0"
      "x = Suc i \<or> i = Suc x" by blast
    moreover from this have "(qy, i) \<in> set (cross_neighbourhood ?h ?w qy x)"
      by (auto simp: cross_neighbourhood_def)
    ultimately show ?thesis using q(1) by blast
  qed
qed

lemma foreground_erode_strict:
  assumes "rectangular img" "has_background img" "foreground img \<noteq> {}"
  shows "foreground (erode img) \<subset> foreground img"
proof -
  from has_background_boundary [OF assms(2,3)]
  obtain y x j i where b: "y < img_h img" "x < img_w img" and nz: "pixel img y x \<noteq> 0"
    and n: "(j, i) \<in> set (cross_neighbourhood (img_h img) (img_w img) y x)" and z: "pixel img j i = 0"
    by blast
  have "pixel (erode img) y x = 0" by (rule erode_pixel_zero [OF assms(1) b n z])
  then have "(y, x) \<notin> foreground (erode img)" by (simp add: foreground_def)
  moreover have "(y, x) \<in> foreground img" using b nz by (simp add: foreground_def)
  ultimately show ?thesis using foreground_erode_subset [OF assms(1)] by blast
qed

lemma has_background_erode:
  assumes "rectangular img" "has_background img"
  shows "has_background (erode img)"
proof -
  from assms(2) obtain y x where b: "y < img_h img" "x < img_w img" and z: "pixel img y x = 0"
    by (auto simp: has_background_def)
  have "(y, x) \<in> set (cross_neighbourhood (img_h img) (img_w img) y x)"
    by (simp add: cross_neighbourhood_def)
  from erode_pixel_zero [OF assms(1) b this z] b show ?thesis
    by (auto simp: has_background_def erode_dims [OF assms(1)])
qed

lemma countNonZero_zero_iff:
  assumes "rectangular img"
  shows "countNonZero img = 0 \<longleftrightarrow> foreground img = {}"
proof
  assume "countNonZero img = 0"
  then have all: "\<forall>r\<in>set img. \<forall>v\<in>set r. v = 0"
    by (auto simp: countNonZero_def filter_empty_conv)
  show "foreground img = {}"
  proof (rule ccontr)
    assume "foreground img \<noteq> {}"
    then obtain y x where b: "y < img_h img" "x < img_w img" "pixel img y x \<noteq> 0"
      by (auto simp: foreground_def)
    have "img ! y \<in> set img" using b(1) by (simp add: img_h_def)
    moreover have "img ! y ! x \<in> set (img ! y)"
      using b(2) rectangular_row [OF assms b(1)] by simp
    ultimately show False using all b(3) by (auto simp: pixel_def)
  qed
next
  assume e: "foreground img = {}"
  have "v = 0" if "r \<in> set img" "v \<in> set r" for r v
  proof -
    from that(1) obtain y where y: "y < length img" "r = img ! y" by (auto simp: in_set_conv_nth)
    from that(2) obtain x where x: "x < length r" "v = r ! x" by (auto simp: in_set_conv_nth)
    have "x < img_w img" using x(1) y rectangular_row [OF assms, of y] by (simp add: img_h_def)
    with e y x show ?thesis by (auto simp: foreground_def img_h_def pixel_def)
  qed
  then show "countNonZero img = 0" by (auto simp: countNonZero_def filter_empty_conv)
qed

lemma skeleton_loop_terminates:
  assumes "rectangular thresh" "has_background thresh"
  shows "\<exists>n\<ge>1. skeleton_loop thresh skeleton iters = Some (skeleton_after n thresh skeleton, iters + n)
           \<and> countNonZero ((erode ^^ n) thresh) = 0
           \<and> (\<forall>k. 1 \<le> k \<and> k < n \<longrightarrow> countNonZero ((erode ^^ k) thresh) \<noteq> 0)"
  using assms
proof (induction "card (foreground thresh)" arbitrary: thresh skeleton iters rule: less_induct)
  case less
  let ?e = "erode thresh"
  let ?s = "bitwise_or skeleton (subtract thresh (dilate ?e))"
  note re = erode_dims(3) [OF less.prems(1)]
  show ?case
  proof (cases "countNonZero ?e = 0")
    case True
    then have "skeleton_loop thresh skeleton iters = Some (skeleton_after 1 thresh skeleton, iters + 1)"
      by (subst skeleton_loop.simps) (simp add: Let_def)
    with True show ?thesis by (intro exI [of _ 1]) simp
  next
    case False
    then have ne: "foreground ?e \<noteq> {}" using countNonZero_zero_iff [OF re] by simp
    then have "foreground thresh \<noteq> {}" using foreground_erode_subset [OF less.prems(1)] by auto
    then have "foreground ?e \<subset> foreground thresh"
      by (rule foreground_erode_strict [OF less.prems])
    then have "card (foreground ?e) < card (foreground thresh)"
      by (simp add: psubset_card_mono finite_foreground)
    from less.hyps [OF this re has_background_erode [OF less.prems], of ?s "iters + 1"]
    obtain n where n: "1 \<le> n"
      "skeleton_loop ?e ?s (iters + 1) = Some (skeleton_after n ?e ?s, iters + 1 + n)"
      "countNonZero ((erode ^^ n) ?e) = 0"
      "\<forall>k. 1 \<le> k \<and> k < n \<longrightarrow> countNonZero ((erode ^^ k) ?e) \<noteq> 0"
      by blast
    have "skeleton_loop thresh skeleton iters = skeleton_loop ?e ?s (iters + 1)"
      using False by (subst skeleton_loop.simps) (simp add: Let_def)
    with n(2) have a: "skeleton_loop thresh skeleton iters
                        = Some (skeleton_after (Suc n) thresh skeleton, iters + Suc n)"
      by simp
    have b: "countNonZero ((erode ^^ Suc n) thresh) = 0"
      using n(3) by (simp add: funpow_swap1)
    have c: "countNonZero ((erode ^^ k) thresh) \<noteq> 0" if "1 \<le> k" "k < Suc n" for k
    proof (cases "k = 1")
      case True
      with False show ?thesis by simp
    next
      case False
      with that obtain k' where k': "k = Suc k'" "1 \<le> k'" "k' < n" by (cases k) auto
      with n(4) show ?thesis by (simp add: funpow_swap1)
    qed
    from a b c show ?thesis by (intro exI [of _ "Suc n"]) simp
  qed
qed

lemma skeleton_loop_diverges:
  assumes "skeleton_loop thresh skeleton iters = Some r"
  shows "thresh \<noteq> [[255]]"
proof (rule skeleton_loop.raw_induct [where P = "\<lambda>t s i r. t \<noteq> [[255]]", OF _ assms])
  fix loop :: "image \<Rightarrow> image \<Rightarrow> nat \<Rightarrow> (image \<times> nat) option" and t s i and r :: "image \<times> nat"
  assume IH: "\<And>t s i r. loop t s i = Some r \<Longrightarrow> t \<noteq> [[255]]"
  assume eq: "(let eroded = erode t; temp = dilate eroded; temp1 = subtract t temp;
                   skeleton1 = bitwise_or s temp1; iters1 = i + 1
               in if countNonZero eroded = 0 then Some (skeleton1, iters1)
                  else loop eroded skeleton1 iters1) = Some r"
  show "t \<noteq> [[255]]"
  proof
    assume t: "t = [[255]]"
    have e: "erode [[255]] = [[255]]" by code_simp
    have c: "countNonZero [[255]] \<noteq> 0" by code_simp
    from eq have "loop [[255]] (bitwise_or s (subtract [[255]] (dilate [[255]]))) (i + 1) = Some r"
      unfolding t Let_def e using c by simp
    from IH [OF this] show False by simp
  qed
qed

text \<open>
  C6 (as stated): \<open>find_skeleton\<close> terminates for every binary input image. On the image of
  one foreground pixel the erosion changes nothing, the count of non-zero pixels stays \<open>1\<close>,
  and the loop never returns.
\<close>

theorem find_skeleton_counterexample: "find_skeleton [[255]] = None"
proof (cases "find_skeleton [[255]]")
  case None
  then show ?thesis .
next
  case (Some r)
  moreover have "threshold [[255]] = [[255]]" by code_simp
  ultimately have "skeleton_loop [[255]] (zeros (img_h [[255]]) (img_w [[255]])) 0 = Some r"
    by (simp only: find_skeleton_def Let_def)
  from skeleton_loop_diverges [OF this] show ?thesis by simp
qed

lemma countNonZero_card:
  assumes "rectangular img"
  shows "countNonZero img = card (foreground img)"
proof -
  let ?B = "\<lambda>y. {x. x < img_w img \<and> pixel img y x \<noteq> 0}"
  have row: "length (filter (\<lambda>v. v \<noteq> 0) (img ! y)) = card (?B y)" if "y < length img" for y
    using rectangular_row [OF assms, of y] that
    by (simp add: length_filter_conv_card img_h_def pixel_def)
  have "countNonZero img = sum_list (map (\<lambda>r. length (filter (\<lambda>v. v \<noteq> 0) r)) img)"
    by (simp add: countNonZero_def filter_concat length_concat comp_def)
  also have "\<dots> = (\<Sum>y = 0..<length img. length (filter (\<lambda>v. v \<noteq> 0) (img ! y)))"
    by (simp add: sum_list_sum_nth)
  also have "\<dots> = (\<Sum>y = 0..<length img. card (?B y))"
    by (rule sum.cong) (simp_all add: row)
  also have "\<dots> = card (SIGMA y:{0..<length img}. ?B y)"
    by (subst card_SigmaI) simp_all
  also have "(SIGMA y:{0..<length img}. ?B y) = foreground img"
    by (auto simp: foreground_def img_h_def)
  finally show ?thesis .
qed

lemma countNonZero_erode_le:
  assumes "rectangular img"
  shows "countNonZero (erode img) \<le> countNonZero img"
  using foreground_erode_subset [OF assms] erode_dims(3) [OF assms] assms
  by (simp add: countNonZero_card card_mono finite_foreground)

lemma countNonZero_erode_less:
  assumes "rectangular img" "has_background img" "countNonZero img \<noteq> 0"
  shows "countNonZero (erode img) < countNonZero img"
proof -
  have "foreground img \<noteq> {}" using assms(1,3) by (simp add: countNonZero_zero_iff)
  from foreground_erode_strict [OF assms(1,2) this] show ?thesis
    using erode_dims(3) [OF assms(1)] assms(1)
    by (simp add: countNonZero_card psubset_card_mono finite_foreground)
qed

lemma erode_funpow_invariant:
  assumes "rectangular img" "has_background img"
  shows "rectangular ((erode ^^ k) img) \<and> has_background ((erode ^^ k) img)"
  using assms by (induction k) (simp_all add: erode_dims(3) has_background_erode)

lemma threshold_dims:
  "img_h (threshold img) = img_h img" "img_w (threshold img) = img_w img"
  by (simp_all add: threshold_def img_h_def img_w_def split: list.splits)

lemma threshold_rectangular: "rectangular img \<Longrightarrow> rectangular (threshold img)"
  by (simp add: rectangular_def threshold_dims) (simp add: threshold_def list_all_iff)

lemma threshold_background:
  assumes "rectangular img" "\<exists>v\<in>set (concat img). v \<le> 127"
  shows "has_background (threshold img)"
proof -
  from assms(2) obtain r v where r: "r \<in> set img" "v \<in> set r" "v \<le> 127" by auto
  from r(1) obtain y where y: "y < length img" "r = img ! y" by (auto simp: in_set_conv_nth)
  from r(2) obtain x where x: "x < length r" "v = r ! x" by (auto simp: in_set_conv_nth)
  have w: "x < img_w img" using x(1) y rectangular_row [OF assms(1), of y] by (simp add: img_h_def)
  have "pixel (threshold img) y x = 0"
    using y x r(3) by (simp add: pixel_def threshold_def)
  moreover have "y < img_h (threshold img)" "x < img_w (threshold img)"
    using y w by (simp_all add: threshold_dims) (simp add: img_h_def)
  ultimately show ?thesis unfolding has_background_def by blast
qed

text \<open>
  C6 (amended): for every binary input image with at least one background pixel (a pixel
  not above the threshold \<open>127\<close>), \<open>find_skeleton\<close> terminates. Each iteration erodes the
  working image, dilates the eroded copy, subtracts that from the image before erosion, ORs
  the result into the accumulating skeleton and continues with the eroded image; the loop
  stops at the first iteration whose eroded image has no foreground pixel left, and the
  number \<open>n \<ge> 1\<close> of iterations is returned with the skeleton. The count of foreground
  pixels never increases under erosion and, while it is not zero, strictly decreases.
\<close>

theorem find_skeleton_terminates:
  assumes "rectangular img" "\<exists>v\<in>set (concat img). v \<le> 127"
  shows "\<exists>n\<ge>1.
           find_skeleton img
             = Some (skeleton_after n (threshold img) (zeros (img_h img) (img_w img)), n)
           \<and> countNonZero ((erode ^^ n) (threshold img)) = 0
           \<and> (\<forall>k. 1 \<le> k \<and> k < n \<longrightarrow> countNonZero ((erode ^^ k) (threshold img)) \<noteq> 0)
           \<and> (\<forall>k. countNonZero ((erode ^^ Suc k) (threshold img))
                      \<le> countNonZero ((erode ^^ k) (threshold img)))
           \<and> (\<forall>k. countNonZero ((erode ^^ k) (threshold img)) \<noteq> 0 \<longrightarrow>
                    countNonZero ((erode ^^ Suc k) (threshold img))
                      < countNonZero ((erode ^^ k) (threshold img)))"
proof -
  let ?t = "threshold img"
  have rt: "rectangular ?t" by (rule threshold_rectangular [OF assms(1)])
  have bt: "has_background ?t" by (rule threshold_background [OF assms])
  from skeleton_loop_terminates [OF rt bt, of "zeros (img_h img) (img_w img)" 0]
  obtain n where n: "1 \<le> n"
    "skeleton_loop ?t (zeros (img_h img) (img_w img)) 0
       = Some (skeleton_after n ?t (zeros (img_h img) (img_w img)), 0 + n)"
    "countNonZero ((erode ^^ n) ?t) = 0"
    "\<forall>k. 1 \<le> k \<and> k < n \<longrightarrow> countNonZero ((erode ^^ k) ?t) \<noteq> 0"
    by blast
  have le: "countNonZero ((erode ^^ Suc k) ?t) \<le> countNonZero ((erode ^^ k) ?t)" for k
    using erode_funpow_invariant [OF rt bt, of k] by (simp add: countNonZero_erode_le)
  have less: "countNonZero ((erode ^^ Suc k) ?t) < countNonZero ((erode ^^ k) ?t)"
    if "countNonZero ((erode ^^ k) ?t) \<noteq> 0" for k
    using erode_funpow_invariant [OF rt bt, of k] that by (simp add: countNonZero_erode_less)
  have "find_skeleton img = Some (skeleton_after n ?t (zeros (img_h img) (img_w img)), n)"
    using n(2) by (simp add: find_skeleton_def Let_def)
  with n(1,3,4) le less show ?thesis by (intro exI [of _ n]) simp
qed

theorem find_skeleton_terminates_witness:
  "rectangular [[0, 255], [255, 255]] \<and> 0 \<in> set (concat [[0, 255], [255, 255 :: 8 word]])
   \<and> find_skeleton [[0, 255], [255, 255]] = Some ([[0, 0], [0, 255]], 2)
   \<and> countNonZero ((erode ^^ 2) (threshold [[0, 255], [255, 255]])) = 0"
proof -
  let ?img = "[[0, 255], [255, 255 :: 8 word]]"
  have r: "rectangular ?img" by code_simp
  have z: "0 \<in> set (concat ?img)" by simp
  then have b: "\<exists>v\<in>set (concat ?img). v \<le> 127" by (rule bexI [rotated]) simp
  have v: "find_skeleton ?img = Some ([[0, 0], [0, 255]], 2)" by code_simp
  from find_skeleton_terminates [OF r b] obtain n where n:
    "find_skeleton ?img = Some (skeleton_after n (threshold ?img) (zeros (img_h ?img) (img_w ?img)), n)"
    "countNonZero ((erode ^^ n) (threshold ?img)) = 0"
    by blast
  from n(1) have "n = 2" unfolding v by (simp only: option.inject prod.inject)
  with n(2) have c: "countNonZero ((erode ^^ 2) (threshold ?img)) = 0" by (simp only:)
  from r z v c show ?thesis by (simp only: simp_thms)
qed

end
